theory Spec2Isabelle
  imports Complex_Main "HOL-Library.Word"
begin

section \<open>Indexed min/max reduction (csrc/gpu/aten/operators/ReduceDimIndex.cpp)\<close>

subsection \<open>Element values and their comparisons\<close>

text \<open>
  The element type \<open>scalar_t\<close> is a template parameter of the comparators. An element
  is either a number of an ordered carrier \<open>'a\<close> (integers, booleans, or the
  non-NaN floating-point values including both infinities) or a NaN. Only the
  comparison operators of the element type are used by the reduction, so the carrier is
  any linear order. Every comparison with a NaN is false, as in C++.
\<close>

datatype 'a scalar = Num 'a | NaN

fun isnan :: "'a scalar \<Rightarrow> bool" where
  "isnan NaN = True"
| "isnan (Num x) = False"

fun s_eq :: "'a scalar \<Rightarrow> 'a scalar \<Rightarrow> bool" where
  "s_eq (Num x) (Num y) = (x = y)"
| "s_eq a b = False"

fun s_lt :: "'a::linorder scalar \<Rightarrow> 'a scalar \<Rightarrow> bool" where
  "s_lt (Num x) (Num y) = (x < y)"
| "s_lt a b = False"

fun s_gt :: "'a::linorder scalar \<Rightarrow> 'a scalar \<Rightarrow> bool" where
  "s_gt (Num x) (Num y) = (x > y)"
| "s_gt a b = False"

text \<open>
  \<open>struct LessOrNan\<close> and \<open>struct GreaterOrNan\<close>: the call operator, with the
  index type \<open>int64_t\<close> read as an integer.
\<close>

definition LessOrNan :: "'a::linorder scalar \<Rightarrow> 'a scalar \<Rightarrow> int \<Rightarrow> int \<Rightarrow> bool" where
  "LessOrNan a b idx_a idx_b =
     (if isnan a then (if isnan b then idx_a < idx_b else True)
      else (if s_eq a b then idx_a < idx_b else s_lt a b))"

definition GreaterOrNan :: "'a::linorder scalar \<Rightarrow> 'a scalar \<Rightarrow> int \<Rightarrow> int \<Rightarrow> bool" where
  "GreaterOrNan a b idx_a idx_b =
     (if isnan a then (if isnan b then idx_a < idx_b else True)
      else (if s_eq a b then idx_a < idx_b else s_gt a b))"

subsection \<open>The reduction operations\<close>

text \<open>
  \<open>struct MinMaxReductionOps<comp_t>\<close>: the accumulator \<open>arg_t\<close> is the struct
  \<open>ident {first; second}\<close>; the comparator is the parameter \<open>cmp\<close> (\<open>comp_t\<close>).
\<close>

record 'a arg_t =
  first :: "'a scalar"
  second :: int

type_synonym 'a comp_t = "'a scalar \<Rightarrow> 'a scalar \<Rightarrow> int \<Rightarrow> int \<Rightarrow> bool"

definition project :: "'a arg_t \<Rightarrow> 'a arg_t" where
  "project arg = arg"

definition reduce :: "'a comp_t \<Rightarrow> 'a arg_t \<Rightarrow> 'a scalar \<Rightarrow> int \<Rightarrow> 'a arg_t" where
  "reduce cmp arg val idx =
     (let ret = \<lparr>first = val, second = idx\<rparr>
      in if cmp (first arg) val (second arg) idx then arg else ret)"

definition combine :: "'a comp_t \<Rightarrow> 'a arg_t \<Rightarrow> 'a arg_t \<Rightarrow> 'a arg_t" where
  "combine cmp a b = (if cmp (first a) (first b) (second a) (second b) then a else b)"

text \<open>
  \<open>translate_idx\<close> adds two values of \<open>int64_t\<close>. A sum outside the range of the type is
  undefined behaviour: there is no result.
\<close>

definition translate_idx :: "'a arg_t \<Rightarrow> int \<Rightarrow> 'a arg_t option" where
  "translate_idx a base_idx =
     (let idx = second a + base_idx
      in if - (2 ^ 63) \<le> idx \<and> idx < 2 ^ 63 then Some \<lparr>first = first a, second = idx\<rparr>
         else None)"

text \<open>
  The seeds handed to the reduction kernel by \<open>_min_out\<close> and \<open>_max_out\<close>:
  \<open>arg_t{Numerics<scalar_t>::upper_bound(), 0}\<close> and
  \<open>arg_t{Numerics<scalar_t>::lower_bound(), 0}\<close>. The two bounds come from
  \<open>comm/Numerics.h\<close> and are parameters here.
\<close>

definition min_ident :: "'a \<Rightarrow> 'a arg_t" where
  "min_ident upper_bound = \<lparr>first = Num upper_bound, second = 0\<rparr>"

definition max_ident :: "'a \<Rightarrow> 'a arg_t" where
  "max_ident lower_bound = \<lparr>first = Num lower_bound, second = 0\<rparr>"

text \<open>
  Modelled from the spec: the reduction driver \<open>dpcpp_reduce_kernel\<close> (Reduce.h) that
  applies the operations to a slice. It is the comparator-parameterised fold of section
  4.1: starting from the seed, \<open>reduce\<close> is applied to every element of the slice with
  its index along the reduced axis, from index 0 upwards.
\<close>

fun fold_reduce :: "'a comp_t \<Rightarrow> 'a arg_t \<Rightarrow> 'a scalar list \<Rightarrow> int \<Rightarrow> 'a arg_t" where
  "fold_reduce cmp acc [] idx = acc"
| "fold_reduce cmp acc (x # xs) idx = fold_reduce cmp (reduce cmp acc x idx) xs (idx + 1)"

definition min_slice :: "'a::linorder \<Rightarrow> 'a scalar list \<Rightarrow> 'a arg_t" where
  "min_slice upper_bound xs = fold_reduce LessOrNan (min_ident upper_bound) xs 0"

definition max_slice :: "'a::linorder \<Rightarrow> 'a scalar list \<Rightarrow> 'a arg_t" where
  "max_slice lower_bound xs = fold_reduce GreaterOrNan (max_ident lower_bound) xs 0"

text \<open>
  A reduction schedule: any tree whose leaves are accumulators and whose inner nodes
  merge two partial results with \<open>combine\<close>. Every order in which work items and
  work groups may merge their partial results is such a tree.
\<close>

datatype 'a schedule = Leaf "'a arg_t" | Merge "'a schedule" "'a schedule"

fun run_schedule :: "'a comp_t \<Rightarrow> 'a schedule \<Rightarrow> 'a arg_t" where
  "run_schedule cmp (Leaf a) = a"
| "run_schedule cmp (Merge l r) = combine cmp (run_schedule cmp l) (run_schedule cmp r)"

fun leaves :: "'a schedule \<Rightarrow> 'a arg_t set" where
  "leaves (Leaf a) = {a}"
| "leaves (Merge l r) = leaves l \<union> leaves r"

text \<open>The elements of a slice, each paired with its index along the reduced axis.\<close>

definition slice_elems :: "'a scalar list \<Rightarrow> 'a arg_t set" where
  "slice_elems xs = (\<lambda>i. \<lparr>first = xs ! i, second = int i\<rparr>) ` {..<length xs}"

text \<open>
  What the specification asks of the result \<open>r\<close> for a slice \<open>xs\<close>: the index is a
  position of the slice and the value is the element there; if the slice holds a NaN the
  value is NaN and the index is the first NaN; otherwise the value is the least
  (greatest) element and the index is the first position that holds it.
\<close>

definition first_min :: "'a::linorder scalar list \<Rightarrow> 'a arg_t \<Rightarrow> bool" where
  "first_min xs r =
     (0 \<le> second r \<and> nat (second r) < length xs \<and> first r = xs ! nat (second r) \<and>
      (if NaN \<in> set xs
       then first r = NaN \<and> (\<forall>i<length xs. xs ! i = NaN \<longrightarrow> second r \<le> int i)
       else (\<exists>v. first r = Num v \<and> (\<forall>x. Num x \<in> set xs \<longrightarrow> v \<le> x)) \<and>
            (\<forall>i<length xs. xs ! i = first r \<longrightarrow> second r \<le> int i)))"

definition first_max :: "'a::linorder scalar list \<Rightarrow> 'a arg_t \<Rightarrow> bool" where
  "first_max xs r =
     (0 \<le> second r \<and> nat (second r) < length xs \<and> first r = xs ! nat (second r) \<and>
      (if NaN \<in> set xs
       then first r = NaN \<and> (\<forall>i<length xs. xs ! i = NaN \<longrightarrow> second r \<le> int i)
       else (\<exists>v. first r = Num v \<and> (\<forall>x. Num x \<in> set xs \<longrightarrow> x \<le> v)) \<and>
            (\<forall>i<length xs. xs ! i = first r \<longrightarrow> second r \<le> int i)))"

text \<open>
  Auxiliary notions for the proofs: \<open>acc_le cmp a b\<close> holds when the comparator keeps
  \<open>a\<close> in front of \<open>b\<close> (or the two are the same accumulator), and a comparator is a
  total order on accumulators when this relation is total, transitive and antisymmetric.
\<close>

definition acc_le :: "'a comp_t \<Rightarrow> 'a arg_t \<Rightarrow> 'a arg_t \<Rightarrow> bool" where
  "acc_le cmp a b = (a = b \<or> cmp (first a) (first b) (second a) (second b))"

definition total_order_cmp :: "'a comp_t \<Rightarrow> bool" where
  "total_order_cmp cmp =
     ((\<forall>a b. acc_le cmp a b \<or> acc_le cmp b a) \<and>
      (\<forall>a b c. acc_le cmp a b \<longrightarrow> acc_le cmp b c \<longrightarrow> acc_le cmp a c) \<and>
      (\<forall>a b. acc_le cmp a b \<longrightarrow> acc_le cmp b a \<longrightarrow> a = b))"

section \<open>Softmax kernel selection and launch geometry\<close>

subsection \<open>Element types and compile-time constants\<close>

text \<open>
  \<open>c10::ScalarType\<close>, with the names of its constants (\<open>kLong\<close>, \<open>kBool\<close>, ...), and
  \<open>sizeof(scalar_t)\<close> of the element type each one stands for.
\<close>

datatype ScalarType =
    kByte | kChar | kShort | kInt | kLong | kHalf | kFloat | kDouble
  | kComplexHalf | kComplexFloat | kComplexDouble | kBool | kBFloat16

fun sizeof :: "ScalarType \<Rightarrow> nat" where
  "sizeof kByte = 1"
| "sizeof kChar = 1"
| "sizeof kShort = 2"
| "sizeof kInt = 4"
| "sizeof kLong = 8"
| "sizeof kHalf = 2"
| "sizeof kFloat = 4"
| "sizeof kDouble = 8"
| "sizeof kComplexHalf = 4"
| "sizeof kComplexFloat = 8"
| "sizeof kComplexDouble = 16"
| "sizeof kBool = 1"
| "sizeof kBFloat16 = 2"

text \<open>
  \<open>constexpr int float4_size = sizeof(float) * 4\<close>,
  \<open>max_vec_size = float4_size / sizeof(scalar_t)\<close> and, in the forward dispatchers,
  \<open>INNER_LOOP = max_vec_size * 2\<close>.
\<close>

definition float4_size :: nat where
  "float4_size = sizeof kFloat * 4"

definition max_vec_size :: "ScalarType \<Rightarrow> nat" where
  "max_vec_size scalar_t = float4_size div sizeof scalar_t"

definition INNER_LOOP :: "ScalarType \<Rightarrow> nat" where
  "INNER_LOOP scalar_t = max_vec_size scalar_t * 2"

text \<open>
  The sub-group widths \<open>SIMD16\<close> and \<open>SIMD32\<close> are macros of a header outside the
  sources at hand; their values are the ones the file's opening comment gives
  (\<open>SIMD=16\<close>, \<open>SIMD=32\<close>). \<open>MIN_WG_NUM\<close> is defined in the file.
\<close>

definition SIMD16 :: nat where
  "SIMD16 = 16"

definition SIMD32 :: nat where
  "SIMD32 = 32"

definition MIN_WG_NUM :: nat where
  "MIN_WG_NUM = 32768"

subsection \<open>Work-group geometry of the register-resident kernel\<close>

text \<open>
  \<open>get_wgroup_size<SIMD, vec_size, NUM>\<close>. The five reference parameters it writes are
  the fields of the result (the caller's variables \<open>sub_group_num\<close>, \<open>range\<close>,
  \<open>global_size_row\<close>, \<open>local_size_row\<close> and \<open>local_size\<close>). \<open>range\<close> is written only on the second return path, so it is
  optional: \<open>None\<close> is the caller's uninitialised variable. The device's
  \<open>dpcppMaxWorkGroupSize\<close> is the parameter \<open>maxWGSize\<close>. All quantities are
  non-negative machine integers far below the 32-bit limit and are read as naturals.
\<close>

record wgroup =
  wg_sub_group_num :: nat
  wg_range :: "nat option"
  wg_global_size_row :: nat
  wg_local_size_row :: nat
  wg_local_size :: nat

text \<open>
  The first \<open>while\<close> loop: one work group takes several rows while there are many rows
  and the group is small.
\<close>

function enlarge_rows :: "nat \<Rightarrow> nat \<Rightarrow> nat \<Rightarrow> nat \<Rightarrow> nat \<times> nat" where
  "enlarge_rows maxWGSize local_size_col global_size_row local_size_row =
     (if global_size_row div 2 > MIN_WG_NUM \<and>
         (local_size_row * 2) * local_size_col \<le> maxWGSize \<and>
         global_size_row mod 2 = 0
      then enlarge_rows maxWGSize local_size_col (global_size_row div 2) (local_size_row * 2)
      else (global_size_row, local_size_row))"
  by pat_completeness auto
termination
  by (relation "measure (\<lambda>(m, c, g, l). g)") (auto simp: MIN_WG_NUM_def)

declare enlarge_rows.simps [simp del]

text \<open>
  The second \<open>while\<close> loop, \<open>while (sub_group_num <= (range >> 1)) range = range >> 1\<close>.
  It does not end when \<open>sub_group_num\<close> is 0, so its result is optional.
\<close>

partial_function (option) shrink_range :: "nat \<Rightarrow> nat \<Rightarrow> nat option" where
  "shrink_range sub_group_num range_sz =
     (if sub_group_num \<le> range_sz div 2 then shrink_range sub_group_num (range_sz div 2)
      else Some range_sz)"

definition get_wgroup_size :: "nat \<Rightarrow> nat \<Rightarrow> nat \<Rightarrow> nat \<Rightarrow> nat \<Rightarrow> nat \<Rightarrow> wgroup option" where
  "get_wgroup_size SIMD vec_size NUM maxWGSize dim_size outer_size =
     (let local_size = (dim_size + NUM * vec_size - 1) div (NUM * vec_size);
          local_size = min local_size maxWGSize;
          sub_group_num = (local_size + SIMD - 1) div SIMD;
          local_size_col = sub_group_num * SIMD
      in if dim_size \<le> vec_size * NUM
         then Some \<lparr>wg_sub_group_num = sub_group_num, wg_range = None,
                    wg_global_size_row = (outer_size + SIMD - 1) div SIMD,
                    wg_local_size_row = SIMD, wg_local_size = 1\<rparr>
         else (case enlarge_rows maxWGSize local_size_col outer_size 1 of
                 (global_size_row, local_size_row) \<Rightarrow>
                   (case shrink_range sub_group_num SIMD of
                      None \<Rightarrow> None
                    | Some r \<Rightarrow>
                        Some \<lparr>wg_sub_group_num = sub_group_num, wg_range = Some r,
                              wg_global_size_row = global_size_row,
                              wg_local_size_row = local_size_row,
                              wg_local_size = local_size_col\<rparr>)))"

subsection \<open>The forward dispatcher\<close>

text \<open>
  What \<open>SpatialSoftMaxForward\<close> reads from the device and from its tensors are
  parameters: \<open>max_group_size\<close> (\<open>dpcppMaxWorkGroupSize\<close>) and \<open>sub_group_size_1\<close>
  (\<open>dev_prop->subgroup_sizes[1]\<close>); \<open>inner_size\<close> and \<open>dim_size\<close> of the view
  \<open>[outer_size, dim_size, inner_size]\<close> of the input; \<open>input_start\<close> and
  \<open>output_start\<close>, the element offsets of the two data pointers inside an aligned
  vector; and \<open>can_use_32bit_index\<close>.
\<close>

datatype IndexType = uint32_t | uint64_t

text \<open>
  The kernel launched, with its template arguments: \<open>vec_size\<close>, \<open>SIMD\<close> and
  \<open>outer_loop\<close> for the register-resident kernel, \<open>vec_size\<close> and \<open>IndexType\<close> for
  the other two.
\<close>

datatype forward_launch =
    dispatch_softmax_forward_kernel nat nat nat
  | softmax_forward_kernel nat IndexType
  | spatial_softmax_forward nat IndexType

text \<open>\<open>int SIMD = sub_group_size[1]; if (SIMD == SIMD32) { if (dim_size < SIMD16 * INNER_LOOP) SIMD = SIMD16; }\<close>\<close>

definition select_SIMD :: "nat \<Rightarrow> nat \<Rightarrow> nat \<Rightarrow> nat" where
  "select_SIMD inner_loop sub_group_size_1 dim_size =
     (let SIMD = sub_group_size_1
      in if SIMD = SIMD32 then (if dim_size < SIMD16 * inner_loop then SIMD16 else SIMD) else SIMD)"

definition SpatialSoftMaxForward ::
  "ScalarType \<Rightarrow> nat \<Rightarrow> nat \<Rightarrow> nat \<Rightarrow> nat \<Rightarrow> nat \<Rightarrow> nat \<Rightarrow> bool \<Rightarrow> forward_launch" where
  "SpatialSoftMaxForward scalar_t max_group_size sub_group_size_1
       inner_size dim_size input_start output_start can_use_32bit_index =
     (let mvs = max_vec_size scalar_t;
          il = INNER_LOOP scalar_t;
          SIMD = select_SIMD il sub_group_size_1 dim_size
      in if inner_size = 1 then
           (if can_use_32bit_index \<and> max_group_size * il \<ge> dim_size then
              (if SIMD = SIMD32 then
                 (if input_start = 0 \<and> output_start = 0 \<and> dim_size mod mvs = 0
                  then dispatch_softmax_forward_kernel mvs SIMD32 (il div mvs)
                  else dispatch_softmax_forward_kernel 1 SIMD32 il)
               else
                 (if input_start = 0 \<and> output_start = 0 \<and> dim_size mod mvs = 0 then
                    (if mvs \<ge> 4 \<and> dim_size \<le> 4 * SIMD
                     then dispatch_softmax_forward_kernel 4 SIMD16 1
                     else if dim_size \<le> mvs * SIMD
                     then dispatch_softmax_forward_kernel mvs SIMD16 1
                     else dispatch_softmax_forward_kernel mvs SIMD16 (il div mvs * 2))
                  else dispatch_softmax_forward_kernel 1 SIMD16 (il * 2)))
            else
              (if can_use_32bit_index then
                 (if input_start = output_start
                  then softmax_forward_kernel mvs uint32_t
                  else softmax_forward_kernel 1 uint32_t)
               else
                 (if input_start = output_start
                  then softmax_forward_kernel mvs uint64_t
                  else softmax_forward_kernel 1 uint64_t)))
         else
           (if can_use_32bit_index then
              (if input_start = output_start \<and> inner_size mod mvs = 0
               then spatial_softmax_forward mvs uint32_t
               else spatial_softmax_forward 1 uint32_t)
            else
              (if input_start = output_start \<and> inner_size mod mvs = 0
               then spatial_softmax_forward mvs uint64_t
               else spatial_softmax_forward 1 uint64_t)))"

section \<open>Host-side checks of the operator entry points\<close>

subsection \<open>Tensors and errors\<close>

text \<open>
  The entry points read only the sizes and the element type of their tensors. A failed
  \<open>TORCH_CHECK\<close> or assertion, an element type a dispatch macro does not list, and an
  integer division by zero are values of the type \<open>error\<close>; a function that can fail
  returns \<open>error + result\<close>.
\<close>

record tensor =
  sizes :: "nat list"
  dtype :: ScalarType

datatype error =
    DivisionByZero
  | DimOutOfRange
  | ComplexNotSupported
  | NotImplementedForDtype
  | MaskNotBool
  | MaskTypeUndefined
  | MaskTypeInvalid
  | MaskShapeMismatch

definition numel :: "tensor \<Rightarrow> nat" where
  "numel t = prod_list (sizes t)"

definition ndim :: "tensor \<Rightarrow> nat" where
  "ndim t = length (sizes t)"

definition is_complex :: "tensor \<Rightarrow> bool" where
  "is_complex t = (dtype t \<in> {kComplexHalf, kComplexFloat, kComplexDouble})"

text \<open>
  The framework's axis normalisation \<open>maybe_wrap_dim(dim, dim_post_expr)\<close> (section 6:
  a negative axis is wrapped into the valid range; section 7: an axis out of range is a
  failed check). A tensor of dimension 0 is treated as one of dimension 1.
\<close>

definition maybe_wrap_dim :: "int \<Rightarrow> int \<Rightarrow> error + int" where
  "maybe_wrap_dim d dim_post_expr =
     (let n = (if dim_post_expr \<le> 0 then 1 else dim_post_expr)
      in if d < - n \<or> d > n - 1 then Inl DimOutOfRange
         else Inr (if d < 0 then d + n else d))"

text \<open>
  The element types the dispatch macros accept:
  \<open>IPEX_DISPATCH_ALL_TYPES_AND3(kBFloat16, kHalf, kBool, ...)\<close> and
  \<open>IPEX_DISPATCH_FLOATING_TYPES_AND2(BFloat16, Half, ...)\<close>; any other type is an error.
\<close>

definition ALL_TYPES_AND3 :: "ScalarType set" where
  "ALL_TYPES_AND3 = {kByte, kChar, kShort, kInt, kLong, kFloat, kDouble, kBFloat16, kHalf, kBool}"

definition FLOATING_TYPES_AND2 :: "ScalarType set" where
  "FLOATING_TYPES_AND2 = {kFloat, kDouble, kBFloat16, kHalf}"

text \<open>\<open>grad.dim() == 0 ? grad.view(1) : grad\<close>\<close>

definition view1 :: "tensor \<Rightarrow> tensor" where
  "view1 t = (if ndim t = 0 then t\<lparr>sizes := [1]\<rparr> else t)"

subsection \<open>Indexed min and max: \<open>_min_out\<close> and \<open>_max_out\<close>\<close>

text \<open>
  What a call does after its checks: it hands the outputs to
  \<open>zero_numel_tensor_resize\<close>, or takes the trivial shortcut and fills the index with 0,
  or launches the reduction kernel with the operations and the seed of the direction.
\<close>

datatype direction = Min | Max

datatype reduce_outcome =
    ZeroNumelResize
  | TrivialIndexZero
  | ReduceKernel direction

text \<open>
  The helper \<open>_dimreduce_return_trivial_no_ident\<close> belongs to the framework
  (\<open>ATen/native/ReduceOpsUtils.h\<close>) and not to this repository. There it takes the
  shortcut, and returns true, exactly when \<open>self.numel() == 1 && self.ndimension() == 0\<close>:
  for a tensor of no dimension, whose result needs no reshaping (the source asserts
  \<open>min.dim() == 0\<close> after it).
\<close>

definition dimreduce_return_trivial_no_ident :: "tensor \<Rightarrow> bool" where
  "dimreduce_return_trivial_no_ident self \<longleftrightarrow> numel self = 1 \<and> ndim self = 0"

text \<open>\<open>_min_out\<close> and \<open>_max_out\<close> differ only in the direction.\<close>

definition min_max_out :: "direction \<Rightarrow> tensor \<Rightarrow> int \<Rightarrow> bool \<Rightarrow> error + reduce_outcome" where
  "min_max_out dir self d keepdim =
     (case maybe_wrap_dim d (int (ndim self)) of
        Inl e \<Rightarrow> Inl e
      | Inr d' \<Rightarrow>
          if numel self = 0 then Inr ZeroNumelResize
          else if dimreduce_return_trivial_no_ident self then
            (if is_complex self then Inl ComplexNotSupported else Inr TrivialIndexZero)
          else if dtype self \<in> ALL_TYPES_AND3 then Inr (ReduceKernel dir)
          else Inl NotImplementedForDtype)"

definition min_out :: "tensor \<Rightarrow> int \<Rightarrow> bool \<Rightarrow> error + reduce_outcome" where
  "min_out = min_max_out Min"

definition max_out :: "tensor \<Rightarrow> int \<Rightarrow> bool \<Rightarrow> error + reduce_outcome" where
  "max_out = min_max_out Max"

subsection \<open>Fused add and softmax: \<open>shape_use_fused_path\<close> and \<open>add_softmax\<close>\<close>

text \<open>
  The loop \<open>for (int i = 1; i <= b_dim; i++)\<close> of \<open>shape_use_fused_path\<close> over the values
  of \<open>i\<close> still to come. The operator \<open>%\<close> with a zero divisor is undefined behaviour (a
  trap on the usual hardware), so it is an error here.
\<close>

fun trailing_loop :: "nat list \<Rightarrow> nat list \<Rightarrow> nat list \<Rightarrow> error + bool" where
  "trailing_loop input_size other_size [] = Inr True"
| "trailing_loop input_size other_size (i # is) =
     (if other_size ! (length other_size - i) = 0 then Inl DivisionByZero
      else if input_size ! (length input_size - i) mod other_size ! (length other_size - i) \<noteq> 0
      then Inr False
      else trailing_loop input_size other_size is)"

definition shape_use_fused_path :: "tensor \<Rightarrow> tensor \<Rightarrow> error + bool" where
  "shape_use_fused_path input other =
     (if sizes input = sizes other then Inr True
      else let a_dim = ndim input; b_dim = ndim other
           in if b_dim > a_dim then Inr False
              else trailing_loop (sizes input) (sizes other) [1..<b_dim + 1])"

text \<open>
  The shape test as the specification words it: the size lists are identical, or the rank
  of \<open>other\<close> is at most the rank of \<open>input\<close> and every trailing extent of \<open>other\<close>
  divides the extent of \<open>input\<close> aligned with it from the end.
\<close>

definition trailing_dims_divide :: "nat list \<Rightarrow> nat list \<Rightarrow> bool" where
  "trailing_dims_divide input_size other_size =
     (input_size = other_size \<or>
      (length other_size \<le> length input_size \<and>
       (\<forall>i. 1 \<le> i \<and> i \<le> length other_size \<longrightarrow>
          other_size ! (length other_size - i) dvd input_size ! (length input_size - i))))"

text \<open>
  Which computation \<open>add_softmax\<close> performs: the unfused \<open>at::softmax(at::add(...))\<close>, or,
  inside \<open>add_view_softmax_impl\<close>, the fused kernel with its template arguments
  \<open>vec_size\<close>, \<open>SIMD\<close> and \<open>outer_loop\<close>, or that function's own fallback
  \<open>at::softmax_out(output, at::add(...).view(sizes), dim)\<close>. Before it chooses,
  \<open>add_view_softmax_impl\<close> computes \<open>outer_size = numel / (inner_size * dim_size)\<close>: an
  integer division, by zero when the reduced axis is empty.
\<close>

datatype add_softmax_path =
    softmax_of_add
  | dispatch_softmax_forward_add_kernel nat nat nat
  | softmax_out_of_add

definition add_view_softmax_impl ::
  "ScalarType \<Rightarrow> nat \<Rightarrow> nat \<Rightarrow> nat \<Rightarrow> nat \<Rightarrow> nat \<Rightarrow> nat \<Rightarrow> bool \<Rightarrow> error + add_softmax_path" where
  "add_view_softmax_impl scalar_t max_group_size sub_group_size_1
       inner_size dim_size input_start output_start can_use_32bit_index =
     (if inner_size * dim_size = 0 then Inl DivisionByZero
      else
        let mvs = max_vec_size scalar_t;
            il = INNER_LOOP scalar_t;
            fuse_pattern = (inner_size = 1 \<and> can_use_32bit_index \<and> max_group_size * il \<ge> dim_size)
        in Inr (if fuse_pattern then
             (let SIMD = select_SIMD il sub_group_size_1 dim_size
              in if SIMD = SIMD32 then
                   (if input_start = 0 \<and> output_start = 0 \<and> dim_size mod mvs = 0
                    then dispatch_softmax_forward_add_kernel mvs SIMD32 (il div mvs)
                    else dispatch_softmax_forward_add_kernel 1 SIMD32 il)
                 else
                   (if input_start = 0 \<and> output_start = 0 \<and> dim_size mod mvs = 0 then
                      (if mvs \<ge> 4 \<and> dim_size \<le> 4 * SIMD
                       then dispatch_softmax_forward_add_kernel 4 SIMD16 1
                       else if dim_size \<le> mvs * SIMD
                       then dispatch_softmax_forward_add_kernel mvs SIMD16 1
                       else dispatch_softmax_forward_add_kernel mvs SIMD16 (il div mvs * 2))
                    else dispatch_softmax_forward_add_kernel 1 SIMD16 (il * 2)))
           else softmax_out_of_add))"

text \<open>
  \<open>add_softmax\<close>. The optional argument \<open>dtype\<close> is an option; the geometry and device
  values read inside \<open>add_view_softmax_impl\<close> are passed through.
\<close>

definition add_softmax ::
  "tensor \<Rightarrow> tensor \<Rightarrow> ScalarType option \<Rightarrow>
   nat \<Rightarrow> nat \<Rightarrow> nat \<Rightarrow> nat \<Rightarrow> nat \<Rightarrow> nat \<Rightarrow> bool \<Rightarrow> error + add_softmax_path" where
  "add_softmax input other dtype_opt max_group_size sub_group_size_1
       inner_size dim_size input_start output_start can_use_32bit_index =
     (case shape_use_fused_path input other of
        Inl e \<Rightarrow> Inl e
      | Inr fused \<Rightarrow>
          if \<not> fused \<or> dtype input \<noteq> dtype other \<or>
             (dtype_opt \<noteq> None \<and> the dtype_opt \<noteq> dtype input)
          then Inr softmax_of_add
          else if dtype input \<in> FLOATING_TYPES_AND2
          then add_view_softmax_impl (dtype input) max_group_size sub_group_size_1
                 inner_size dim_size input_start output_start can_use_32bit_index
          else Inl NotImplementedForDtype)"

subsection \<open>Masked softmax: \<open>_masked_softmax\<close> and \<open>_masked_softmax_backward\<close>\<close>

text \<open>
  What a call does after its checks: the backward returns the freshly allocated gradient
  at once, or a call reaches its kernel dispatcher (\<open>MaskedSoftMaxForward\<close>,
  \<open>MaskedSoftMaxBackward\<close>) with the axis and the mask it passes on.
\<close>

datatype masked_outcome =
    ReturnedEmptyGrad
  | Dispatched int tensor

definition is_BxT_mask :: "tensor \<Rightarrow> tensor \<Rightarrow> int \<Rightarrow> bool" where
  "is_BxT_mask input mask_t mask_type =
     (mask_type = 1 \<and>
      (ndim input = 4 \<and> ndim mask_t = 2 \<and>
       sizes input ! 0 = sizes mask_t ! 0 \<and> sizes input ! 2 = sizes mask_t ! 1 \<and>
       sizes input ! 3 = sizes mask_t ! 1))"

definition is_TxT_mask :: "tensor \<Rightarrow> tensor \<Rightarrow> int \<Rightarrow> bool" where
  "is_TxT_mask input mask_t mask_type =
     (mask_type = 0 \<and> ndim input = 4 \<and>
      ndim mask_t = 2 \<and> sizes input ! 3 = sizes mask_t ! 1 \<and>
      sizes input ! 2 = sizes mask_t ! 0 \<and> sizes mask_t ! 0 = sizes mask_t ! 1)"

definition masked_softmax ::
  "tensor \<Rightarrow> tensor \<Rightarrow> int option \<Rightarrow> int option \<Rightarrow> error + masked_outcome" where
  "masked_softmax input mask_t dim_opt mask_type_opt =
     (if dtype mask_t \<noteq> kBool then Inl MaskNotBool
      else case mask_type_opt of
        None \<Rightarrow> Inl MaskTypeUndefined
      | Some mask_type \<Rightarrow>
          if \<not> (mask_type = 0 \<or> mask_type = 1 \<or> mask_type = 2) then Inl MaskTypeInvalid
          else if \<not> (sizes mask_t = sizes input \<or> is_BxT_mask input mask_t mask_type \<or>
                      is_TxT_mask input mask_t mask_type)
          then Inl MaskShapeMismatch
          else
            (let input' = view1 input;
                 mask_v = view1 mask_t;
                 d = (case dim_opt of Some d \<Rightarrow> d | None \<Rightarrow> int (ndim input') - 1);
                 mask_b = (if is_BxT_mask input mask_t mask_type
                           then mask_v\<lparr>sizes := [sizes mask_t ! 0, 1, 1, sizes mask_t ! 1]\<rparr>
                           else mask_v)
             in if dtype input' \<in> FLOATING_TYPES_AND2 then Inr (Dispatched d mask_b)
                else Inl NotImplementedForDtype))"

definition masked_softmax_backward ::
  "tensor \<Rightarrow> tensor \<Rightarrow> tensor \<Rightarrow> int option \<Rightarrow> error + masked_outcome" where
  "masked_softmax_backward grad output mask_t dim_opt =
     (if numel grad = 0 then Inr ReturnedEmptyGrad
      else
        (case (case dim_opt of
                 Some d \<Rightarrow> maybe_wrap_dim d (int (ndim output))
               | None \<Rightarrow> Inr (int (ndim output) - 1)) of
           Inl e \<Rightarrow> Inl e
         | Inr d \<Rightarrow>
             (let grad' = view1 grad;
                  mask_v = view1 mask_t
              in if \<not> (d \<ge> 0 \<and> d < int (ndim grad')) then Inl DimOutOfRange
                 else if sizes grad' \<noteq> sizes mask_v then Inl MaskShapeMismatch
                 else if dtype mask_v \<noteq> kBool then Inl MaskNotBool
                 else if dtype grad \<in> FLOATING_TYPES_AND2 then Inr (Dispatched d mask_v)
                 else Inl NotImplementedForDtype)))"

section \<open>The softmax kernels, one work item at a time\<close>

subsection \<open>Floating-point values\<close>

text \<open>
  The element type \<open>scalar_t\<close> and the accumulation type \<open>accscalar_t\<close> of the kernels
  are floating-point types. A value is a finite number, one of the two infinities or a
  NaN, and the operations treat the special values as IEEE 754 does: an infinity minus
  itself, zero times an infinity and zero divided by zero are NaN, a NaN operand gives a
  NaN, a finite non-zero number divided by zero is an infinity, \<open>exp\<close> of minus infinity
  is zero and \<open>log\<close> of zero is minus infinity. The result of an operation on finite
  numbers is the exact real result: rounding, overflow and underflow of finite
  arithmetic, the sign of zero and the payload of a NaN are not represented, and a
  conversion between \<open>scalar_t\<close> and \<open>accscalar_t\<close> changes nothing.
\<close>

datatype fp = NInf | Fin real | PInf | QNaN

fun fneg :: "fp \<Rightarrow> fp" where
  "fneg NInf = PInf"
| "fneg (Fin a) = Fin (- a)"
| "fneg PInf = NInf"
| "fneg QNaN = QNaN"

fun fadd :: "fp \<Rightarrow> fp \<Rightarrow> fp" where
  "fadd QNaN b = QNaN"
| "fadd a QNaN = QNaN"
| "fadd (Fin a) (Fin b) = Fin (a + b)"
| "fadd (Fin a) b = b"
| "fadd a (Fin b) = a"
| "fadd PInf PInf = PInf"
| "fadd NInf NInf = NInf"
| "fadd PInf NInf = QNaN"
| "fadd NInf PInf = QNaN"

definition fsub :: "fp \<Rightarrow> fp \<Rightarrow> fp" where
  "fsub a b = fadd a (fneg b)"

fun fmul :: "fp \<Rightarrow> fp \<Rightarrow> fp" where
  "fmul QNaN b = QNaN"
| "fmul a QNaN = QNaN"
| "fmul (Fin a) (Fin b) = Fin (a * b)"
| "fmul (Fin a) PInf = (if a = 0 then QNaN else if a > 0 then PInf else NInf)"
| "fmul (Fin a) NInf = (if a = 0 then QNaN else if a > 0 then NInf else PInf)"
| "fmul PInf (Fin b) = (if b = 0 then QNaN else if b > 0 then PInf else NInf)"
| "fmul NInf (Fin b) = (if b = 0 then QNaN else if b > 0 then NInf else PInf)"
| "fmul PInf PInf = PInf"
| "fmul NInf NInf = PInf"
| "fmul PInf NInf = NInf"
| "fmul NInf PInf = NInf"

fun fdiv :: "fp \<Rightarrow> fp \<Rightarrow> fp" where
  "fdiv QNaN b = QNaN"
| "fdiv a QNaN = QNaN"
| "fdiv (Fin a) (Fin b) =
     (if b = 0 then (if a = 0 then QNaN else if a > 0 then PInf else NInf) else Fin (a / b))"
| "fdiv (Fin a) b = Fin 0"
| "fdiv PInf (Fin b) = (if b \<ge> 0 then PInf else NInf)"
| "fdiv NInf (Fin b) = (if b \<ge> 0 then NInf else PInf)"
| "fdiv a b = QNaN"

fun fexp :: "fp \<Rightarrow> fp" where
  "fexp NInf = Fin 0"
| "fexp (Fin a) = Fin (exp a)"
| "fexp PInf = PInf"
| "fexp QNaN = QNaN"

fun flog :: "fp \<Rightarrow> fp" where
  "flog NInf = QNaN"
| "flog (Fin a) = (if a < 0 then QNaN else if a = 0 then NInf else Fin (ln a))"
| "flog PInf = PInf"
| "flog QNaN = QNaN"

text \<open>
  \<open>Numerics<accscalar_t>::max\<close> belongs to \<open>comm/Numerics.h\<close> and
  \<open>std::numeric_limits<accscalar_t>::lowest()\<close> to the element type: both are parameters
  of the kernels below (\<open>Numerics_max\<close>, \<open>lowest\<close>). \<open>fp_max\<close> is one function that can
  take the place of the first: the larger operand, and NaN when an operand is NaN.
\<close>

definition fp_max :: "fp \<Rightarrow> fp \<Rightarrow> fp" where
  "fp_max a b =
     (if a = QNaN \<or> b = QNaN then QNaN
      else if a = PInf \<or> b = PInf then PInf
      else if a = NInf then b
      else if b = NInf then a
      else (case (a, b) of (Fin x, Fin y) \<Rightarrow> Fin (max x y) | _ \<Rightarrow> QNaN))"

subsection \<open>\<open>DispatchSoftmaxForwardKernelFunctor\<close>\<close>

text \<open>
  The call operator of the functor for one work item of the one-dimensional launch,
  identified by \<open>group_id\<close> (\<open>item_id.get_group(0)\<close>) and \<open>local_id\<close>
  (\<open>item_id.get_local_id(0)\<close>); the work-group size is \<open>local_size_row * local_size\<close>.
  The template arguments that the body reads are \<open>vec_size\<close>, \<open>LogSoftMax\<close>,
  \<open>outer_loop\<close> and \<open>is_masked\<close>. Memory is a function from element offsets to values:
  \<open>in_data\<close>, \<open>mask_data\<close>, and \<open>input_calc\<close> for \<open>input_calc.get(linear_idx)[1]\<close>. The
  result is the list of the stores to \<open>out_data\<close> in program order, each an element offset
  with the value stored. Index arithmetic is within 32 bits on this path and is read as
  arithmetic on naturals.

  The value that \<open>group_reduce\<close> leaves in the work item's \<open>val\<close> depends on the values of
  the other work items of the row. It is the parameter \<open>group_reduce_max\<close>
  (\<open>group_reduce_sum\<close>) applied to the work item's own value, so whatever is proved of a
  work item holds for every value the reduction can deliver.

  The three loops over \<open>i\<close> leave at the same \<open>i\<close>, the first with
  \<open>index >= dim_size\<close>; the work item therefore loads, reduces and stores the same
  elements, \<open>fwd_positions\<close>, and \<open>reg_in[i][j]\<close> is \<open>fwd_reg_in\<close> of the element's offset.
\<close>

definition item_global_id :: "nat \<Rightarrow> nat \<Rightarrow> nat \<Rightarrow> nat \<Rightarrow> nat" where
  "item_global_id local_size_row local_size group_id local_id =
     group_id * (local_size_row * local_size) + local_id"

definition fwd_lid_col :: "nat \<Rightarrow> nat \<Rightarrow> nat \<Rightarrow> nat" where
  "fwd_lid_col local_size_row local_size local_id =
     (if local_size_row \<noteq> 1 then local_id mod local_size else local_id)"

definition fwd_group_offset :: "nat \<Rightarrow> nat \<Rightarrow> nat \<Rightarrow> nat \<Rightarrow> nat \<Rightarrow> nat" where
  "fwd_group_offset dim_size local_size_row local_size group_id local_id =
     (if local_size_row \<noteq> 1
      then (group_id * local_size_row + local_id div local_size) * dim_size
      else group_id * dim_size)"

definition fwd_index :: "nat \<Rightarrow> nat \<Rightarrow> nat \<Rightarrow> nat \<Rightarrow> nat" where
  "fwd_index vec_size local_size lid_col i = i * (local_size * vec_size) + lid_col * vec_size"

definition fwd_positions :: "nat \<Rightarrow> nat \<Rightarrow> nat \<Rightarrow> nat \<Rightarrow> nat \<Rightarrow> nat \<Rightarrow> nat \<Rightarrow> nat list" where
  "fwd_positions vec_size outer_loop dim_size local_size_row local_size group_id local_id =
     (let lid_col = fwd_lid_col local_size_row local_size local_id;
          group_offset = fwd_group_offset dim_size local_size_row local_size group_id local_id
      in concat (map (\<lambda>i. map (\<lambda>j. group_offset + fwd_index vec_size local_size lid_col i + j)
                              [0..<vec_size])
                 (takeWhile (\<lambda>i. fwd_index vec_size local_size lid_col i < dim_size)
                    [0..<outer_loop])))"

definition fwd_reg_in :: "bool \<Rightarrow> (nat \<Rightarrow> fp) \<Rightarrow> (nat \<Rightarrow> bool) \<Rightarrow> (nat \<Rightarrow> nat) \<Rightarrow> nat \<Rightarrow> fp" where
  "fwd_reg_in is_masked in_data mask_data input_calc linear_idx =
     (if is_masked \<and> mask_data (input_calc linear_idx) then NInf else in_data linear_idx)"

definition fwd_max_value :: "(fp \<Rightarrow> fp \<Rightarrow> fp) \<Rightarrow> real \<Rightarrow> (fp \<Rightarrow> fp) \<Rightarrow> nat \<Rightarrow> fp list \<Rightarrow> fp" where
  "fwd_max_value Numerics_max lowest group_reduce_max local_size reg_in =
     (let max_value = foldl Numerics_max (Fin lowest) reg_in
      in if local_size > 1 then group_reduce_max max_value else max_value)"

definition fwd_sum_value :: "(fp \<Rightarrow> fp) \<Rightarrow> nat \<Rightarrow> fp \<Rightarrow> fp list \<Rightarrow> fp" where
  "fwd_sum_value group_reduce_sum local_size max_value reg_in =
     (let sum_value = foldl (\<lambda>s x. fadd s (fexp (fsub x max_value))) (Fin 0) reg_in
      in if local_size > 1 then group_reduce_sum sum_value else sum_value)"

definition fwd_sum_final :: "bool \<Rightarrow> fp \<Rightarrow> fp" where
  "fwd_sum_final LogSoftMax sum_value =
     (if LogSoftMax then flog sum_value
      else if sum_value \<noteq> Fin 0 then fdiv (Fin 1) sum_value
      else sum_value)"

definition fwd_result :: "bool \<Rightarrow> fp \<Rightarrow> fp \<Rightarrow> fp \<Rightarrow> fp" where
  "fwd_result LogSoftMax max_value sum_value x =
     (if LogSoftMax then fsub (fsub x max_value) sum_value
      else if sum_value = Fin 0 then QNaN
      else fmul (fexp (fsub x max_value)) sum_value)"

definition DispatchSoftmaxForwardKernelFunctor ::
  "nat \<Rightarrow> bool \<Rightarrow> nat \<Rightarrow> bool \<Rightarrow>
   (fp \<Rightarrow> fp \<Rightarrow> fp) \<Rightarrow> real \<Rightarrow> (fp \<Rightarrow> fp) \<Rightarrow> (fp \<Rightarrow> fp) \<Rightarrow>
   (nat \<Rightarrow> fp) \<Rightarrow> (nat \<Rightarrow> bool) \<Rightarrow> (nat \<Rightarrow> nat) \<Rightarrow>
   nat \<Rightarrow> nat \<Rightarrow> nat \<Rightarrow> nat \<Rightarrow> nat \<Rightarrow> nat \<Rightarrow> (nat \<times> fp) list" where
  "DispatchSoftmaxForwardKernelFunctor vec_size LogSoftMax outer_loop is_masked
       Numerics_max lowest group_reduce_max group_reduce_sum
       in_data mask_data input_calc
       dim_size outer_size local_size_row local_size group_id local_id =
     (if local_size = 1 \<and> item_global_id local_size_row local_size group_id local_id \<ge> outer_size
      then []
      else
        let positions = fwd_positions vec_size outer_loop dim_size local_size_row local_size
                          group_id local_id;
            reg_in = map (fwd_reg_in is_masked in_data mask_data input_calc) positions;
            max_value = fwd_max_value Numerics_max lowest group_reduce_max local_size reg_in;
            sum_value = fwd_sum_value group_reduce_sum local_size max_value reg_in;
            sum_value' = fwd_sum_final LogSoftMax sum_value
        in map (\<lambda>p. (p, fwd_result LogSoftMax max_value sum_value'
                          (fwd_reg_in is_masked in_data mask_data input_calc p)))
             positions)"

subsection \<open>\<open>DispatchSoftmaxBackwardKernelFunctor\<close>\<close>

text \<open>
  The backward functor in the same way; \<open>NUM\<close> is its template argument, the result is
  the list of the stores to \<open>gradInput\<close>. \<open>bwd_partial_sum\<close> is \<open>sum_value\<close> before the
  reduction across the work items.
\<close>

definition bwd_index :: "nat \<Rightarrow> nat \<Rightarrow> nat \<Rightarrow> nat \<Rightarrow> nat" where
  "bwd_index vec_size local_size lid_col i = (lid_col + i * local_size) * vec_size"

definition bwd_positions :: "nat \<Rightarrow> nat \<Rightarrow> nat \<Rightarrow> nat \<Rightarrow> nat \<Rightarrow> nat \<Rightarrow> nat \<Rightarrow> nat list" where
  "bwd_positions vec_size NUM dim_size local_size_row local_size group_id local_id =
     (let lid_row = local_id div local_size;
          lid_col = local_id mod local_size;
          group_offset = (group_id * local_size_row + lid_row) * dim_size
      in concat (map (\<lambda>i. map (\<lambda>j. group_offset + bwd_index vec_size local_size lid_col i + j)
                              [0..<vec_size])
                 (takeWhile (\<lambda>i. bwd_index vec_size local_size lid_col i < dim_size) [0..<NUM])))"

definition bwd_reg_out :: "bool \<Rightarrow> (nat \<Rightarrow> fp) \<Rightarrow> (nat \<Rightarrow> bool) \<Rightarrow> (nat \<Rightarrow> nat) \<Rightarrow> nat \<Rightarrow> fp" where
  "bwd_reg_out is_masked output mask_data input_calc linear_idx =
     (if is_masked \<and> mask_data (input_calc linear_idx) then Fin 0 else output linear_idx)"

definition bwd_partial_sum :: "bool \<Rightarrow> (nat \<Rightarrow> fp) \<Rightarrow> (nat \<Rightarrow> fp) \<Rightarrow> nat list \<Rightarrow> fp" where
  "bwd_partial_sum LogSoftMax reg_out reg_gradout positions =
     foldl (\<lambda>s p. fadd s (if LogSoftMax then reg_gradout p
                           else fmul (reg_out p) (reg_gradout p)))
       (Fin 0) positions"

definition bwd_sum_value ::
  "bool \<Rightarrow> (fp \<Rightarrow> fp) \<Rightarrow> nat \<Rightarrow> (nat \<Rightarrow> fp) \<Rightarrow> (nat \<Rightarrow> fp) \<Rightarrow> nat list \<Rightarrow> fp" where
  "bwd_sum_value LogSoftMax group_reduce_sum local_size reg_out reg_gradout positions =
     (let sum_value = bwd_partial_sum LogSoftMax reg_out reg_gradout positions
      in if local_size > 1 then group_reduce_sum sum_value else sum_value)"

definition bwd_result :: "bool \<Rightarrow> fp \<Rightarrow> fp \<Rightarrow> fp \<Rightarrow> fp" where
  "bwd_result LogSoftMax sum_value out gradout =
     (if LogSoftMax then fsub gradout (fmul (fexp out) sum_value)
      else fmul out (fsub gradout sum_value))"

definition DispatchSoftmaxBackwardKernelFunctor ::
  "nat \<Rightarrow> bool \<Rightarrow> bool \<Rightarrow> nat \<Rightarrow> (fp \<Rightarrow> fp) \<Rightarrow>
   (nat \<Rightarrow> fp) \<Rightarrow> (nat \<Rightarrow> fp) \<Rightarrow> (nat \<Rightarrow> bool) \<Rightarrow> (nat \<Rightarrow> nat) \<Rightarrow>
   nat \<Rightarrow> nat \<Rightarrow> nat \<Rightarrow> nat \<Rightarrow> nat \<Rightarrow> nat \<Rightarrow> (nat \<times> fp) list" where
  "DispatchSoftmaxBackwardKernelFunctor vec_size LogSoftMax is_masked NUM group_reduce_sum
       output gradOutput mask_data input_calc
       dim_size outer_size local_size_row local_size group_id local_id =
     (if local_size = 1 \<and> item_global_id local_size_row local_size group_id local_id \<ge> outer_size
      then []
      else
        let positions = bwd_positions vec_size NUM dim_size local_size_row local_size
                          group_id local_id;
            reg_out = bwd_reg_out is_masked output mask_data input_calc;
            sum_value = bwd_sum_value LogSoftMax group_reduce_sum local_size reg_out gradOutput
                          positions
        in map (\<lambda>p. (p, bwd_result LogSoftMax sum_value (reg_out p) (gradOutput p))) positions)"

subsection \<open>\<open>SoftmaxForwardKernelFunctor\<close>\<close>









subsection \<open>\<open>SpatialSoftmaxForwardKernelFunctor\<close>\<close>







subsection \<open>The masked dispatchers\<close>

text \<open>
  \<open>MaskedSoftMaxForward\<close> and \<open>MaskedSoftMaxBackward\<close>: the masked register-resident
  kernel with its template arguments (\<open>vec_size\<close>, \<open>SIMD\<close>, and \<open>outer_loop\<close> or
  \<open>NUM\<close>), or the fallback through \<open>masked_fill\<close> and the unmasked operator.
  \<open>dispatch_softmax_backward_kernel\<close> computes
  \<open>NUM = INNER_LOOP / vec_size * (SIMD32 / SIMD)\<close>. \<open>MaskedSoftMaxForward\<close> first computes
  \<open>outer_size = numel / (inner_size * dim_size)\<close>, an integer division, by zero when the
  reduced axis is empty; \<open>_masked_softmax\<close> does not turn an empty input away. The backward
  is not reached with an empty gradient.
\<close>

datatype masked_forward_launch =
    masked_dispatch_softmax_forward_kernel nat nat nat
  | softmax_out_of_masked_fill

definition MaskedSoftMaxForward ::
  "ScalarType \<Rightarrow> nat \<Rightarrow> nat \<Rightarrow> nat \<Rightarrow> nat \<Rightarrow> nat \<Rightarrow> nat \<Rightarrow> bool \<Rightarrow>
   error + masked_forward_launch" where
  "MaskedSoftMaxForward scalar_t max_group_size sub_group_size_1
       inner_size dim_size input_start output_start can_use_32bit_index =
     (if inner_size * dim_size = 0 then Inl DivisionByZero
      else
        let mvs = max_vec_size scalar_t;
            il = INNER_LOOP scalar_t;
            SIMD = select_SIMD il sub_group_size_1 dim_size
        in Inr (if inner_size = 1 \<and> can_use_32bit_index \<and> max_group_size * il \<ge> dim_size then
             (if SIMD = SIMD32 then
                (if input_start = 0 \<and> output_start = 0 \<and> dim_size mod mvs = 0
                 then masked_dispatch_softmax_forward_kernel mvs SIMD32 (il div mvs)
                 else masked_dispatch_softmax_forward_kernel 1 SIMD32 il)
              else
                (if input_start = 0 \<and> output_start = 0 \<and> dim_size mod mvs = 0 then
                   (if mvs \<ge> 4 \<and> dim_size \<le> 4 * SIMD
                    then masked_dispatch_softmax_forward_kernel 4 SIMD16 1
                    else if dim_size \<le> mvs * SIMD
                    then masked_dispatch_softmax_forward_kernel mvs SIMD16 1
                    else masked_dispatch_softmax_forward_kernel mvs SIMD16 (il div mvs * 2))
                 else masked_dispatch_softmax_forward_kernel 1 SIMD16 (il * 2)))
           else softmax_out_of_masked_fill))"

datatype masked_backward_launch =
    masked_dispatch_softmax_backward_kernel nat nat nat
  | softmax_backward_data_out_of_masked_fill

definition backward_NUM :: "nat \<Rightarrow> nat \<Rightarrow> nat \<Rightarrow> nat" where
  "backward_NUM inner_loop vec_size SIMD = inner_loop div vec_size * (SIMD32 div SIMD)"

definition MaskedSoftMaxBackward ::
  "ScalarType \<Rightarrow> nat \<Rightarrow> nat \<Rightarrow> nat \<Rightarrow> nat \<Rightarrow> nat \<Rightarrow> nat \<Rightarrow> nat \<Rightarrow> bool \<Rightarrow> masked_backward_launch" where
  "MaskedSoftMaxBackward scalar_t max_group_size sub_group_size_1
       inner_size dim_size gradin_start output_start gradoutput_start can_use_32bit_index =
     (let mvs = max_vec_size scalar_t;
          il = mvs;
          SIMD = select_SIMD mvs sub_group_size_1 dim_size
      in if inner_size = 1 \<and> can_use_32bit_index \<and> max_group_size * il \<ge> dim_size then
           (if SIMD = SIMD32 then
              (if gradin_start = 0 \<and> output_start = 0 \<and> gradoutput_start = 0 \<and>
                  dim_size mod mvs = 0
               then masked_dispatch_softmax_backward_kernel mvs SIMD32 (backward_NUM il mvs SIMD32)
               else masked_dispatch_softmax_backward_kernel 1 SIMD32 (backward_NUM il 1 SIMD32))
            else
              (if gradin_start = 0 \<and> output_start = 0 \<and> gradoutput_start = 0 \<and>
                  dim_size mod mvs = 0
               then masked_dispatch_softmax_backward_kernel mvs SIMD16 (backward_NUM il mvs SIMD16)
               else masked_dispatch_softmax_backward_kernel 1 SIMD16 (backward_NUM il 1 SIMD16)))
         else softmax_backward_data_out_of_masked_fill)"


subsection \<open>Storage type and accumulation type\<close>

text \<open>
  The kernels are templates over \<open>scalar_t\<close>, the element type of the tensors, and
  \<open>accscalar_t\<close>, the type in which they accumulate. For the backward pass the two are
  kept apart. The values of \<open>accscalar_t\<close> are the numbers \<open>fp\<close>; the values of \<open>scalar_t\<close>
  are of a type \<open>'s\<close> of their own, known through three operations: \<open>widen\<close>, the
  conversion of a \<open>scalar_t\<close> to \<open>accscalar_t\<close> (written \<open>accscalar_t(x)\<close>, or implied
  where a \<open>scalar_t\<close> meets an \<open>accscalar_t\<close> in an operation or is added to one);
  \<open>narrow\<close>, the conversion back (\<open>static_cast<scalar_t>\<close>, \<open>scalar_t(0)\<close>, or implied by
  a store); and \<open>scalar_mul\<close>, the operator \<open>*\<close> of two values of \<open>scalar_t\<close>, whose
  result is a \<open>scalar_t\<close>. The three belong to the element types, which are not defined
  in the source files.
\<close>

record 's scalar_type =
  widen :: "'s \<Rightarrow> fp"
  narrow :: "fp \<Rightarrow> 's"
  scalar_mul :: "'s \<Rightarrow> 's \<Rightarrow> 's"

text \<open>
  What \<open>sum_value +=\<close> adds for one element, in the register-resident and the streaming
  kernel (\<open>reg_out[i][j] * reg_gradout[i][j]\<close>, a product of two \<open>scalar_t\<close>) and in the
  spatial kernel (\<open>accscalar_t(gradout_val[j]) * out_val[j]\<close>), and what the kernels store
  for one element: the expression is evaluated in \<open>accscalar_t\<close> and converted.
\<close>

definition bwd_addend :: "'s scalar_type \<Rightarrow> bool \<Rightarrow> 's \<Rightarrow> 's \<Rightarrow> fp" where
  "bwd_addend st LogSoftMax out gradout =
     (if LogSoftMax then widen st gradout else widen st (scalar_mul st out gradout))"


definition bwd_store :: "'s scalar_type \<Rightarrow> bool \<Rightarrow> fp \<Rightarrow> 's \<Rightarrow> 's \<Rightarrow> 's" where
  "bwd_store st LogSoftMax sum_value out gradout =
     narrow st (bwd_result LogSoftMax sum_value (widen st out) (widen st gradout))"

subsection \<open>The reductions across the work items of a group\<close>





text \<open>
  \<open>group_reduce\<close> for one row \<open>lid_row\<close> of the work group. The row has \<open>sub_group_num\<close>
  sub-groups of \<open>SIMD\<close> work items each (\<open>get_wgroup_size\<close> sets
  \<open>local_size = sub_group_num * SIMD\<close>, and the kernel requires the sub-group size
  \<open>SIMD\<close>); the work item \<open>lid_col\<close> of the row is lane \<open>lid_col % SIMD\<close> of the
  sub-group \<open>idx = lid_col / SIMD\<close> of the row. Values of work items are functions of
  the lane or of \<open>lid_col\<close>.

  \<open>sycl::shift_group_left(sg, val, i)\<close> gives lane \<open>l\<close> the value of lane \<open>l + i\<close>, and
  a value that SYCL does not specify when there is no such lane: \<open>out_of_range i l\<close>, a
  parameter. \<open>shuffle_loop\<close> is the first loop over \<open>i\<close>, \<open>shuffle_loop_break\<close> the
  second with its \<open>break\<close>, and \<open>local_data_loop\<close> the loop
  \<open>for (i = sg_local_id + SIMD; i < sub_group_num; i += SIMD)\<close>. \<open>i\<close> starts at 1 and
  doubles, and \<open>SIMD\<close> is 16 or 32: the tests \<open>0 < i\<close> and \<open>0 < SIMD\<close> are there for
  the termination proofs only.

  In \<open>group_reduce\<close>, \<open>sg_val idx\<close> are the values in sub-group \<open>idx\<close> after the first
  loop, \<open>local_data idx\<close> is \<open>local_data[lid_row][idx]\<close> after the first barrier, and
  \<open>val1 0\<close> is what lane 0 of sub-group 0 writes to \<open>local_data[lid_row][0]\<close>, which
  every work item of the row reads after the second barrier. The parameter
  \<open>out_of_range\<close> takes the sub-group first, and \<open>sub_group_num\<close> in its place for the
  second round of shuffles.
\<close>

function shuffle_loop ::
  "(fp \<Rightarrow> fp \<Rightarrow> fp) \<Rightarrow> (nat \<Rightarrow> nat \<Rightarrow> fp) \<Rightarrow> nat \<Rightarrow> nat \<Rightarrow> (nat \<Rightarrow> fp) \<Rightarrow> nat \<Rightarrow> fp" where
  "shuffle_loop bin_op out_of_range SIMD i val =
     (if 0 < i \<and> i < SIMD
      then shuffle_loop bin_op out_of_range SIMD (i * 2)
             (\<lambda>l. bin_op (val l) (if l + i < SIMD then val (l + i) else out_of_range i l))
      else val)"
  by pat_completeness auto
termination
  by (relation "measure (\<lambda>(bin_op, out_of_range, SIMD, i, val). SIMD - i)") auto

declare shuffle_loop.simps [simp del]

function shuffle_loop_break ::
  "(fp \<Rightarrow> fp \<Rightarrow> fp) \<Rightarrow> (nat \<Rightarrow> nat \<Rightarrow> fp) \<Rightarrow> nat \<Rightarrow> nat \<Rightarrow> nat \<Rightarrow> (nat \<Rightarrow> fp) \<Rightarrow> nat \<Rightarrow> fp" where
  "shuffle_loop_break bin_op out_of_range SIMD sub_group_num i val =
     (if 0 < i \<and> i < SIMD
      then let val' = (\<lambda>l. bin_op (val l)
                              (if l + i < SIMD then val (l + i) else out_of_range i l))
           in if i \<ge> (sub_group_num + 1) div 2 then val'
              else shuffle_loop_break bin_op out_of_range SIMD sub_group_num (i * 2) val'
      else val)"
  by pat_completeness auto
termination
  by (relation "measure (\<lambda>(bin_op, out_of_range, SIMD, sub_group_num, i, val). SIMD - i)") auto

declare shuffle_loop_break.simps [simp del]

function local_data_loop ::
  "(fp \<Rightarrow> fp \<Rightarrow> fp) \<Rightarrow> nat \<Rightarrow> nat \<Rightarrow> (nat \<Rightarrow> fp) \<Rightarrow> nat \<Rightarrow> fp \<Rightarrow> fp" where
  "local_data_loop bin_op SIMD sub_group_num local_data i val =
     (if 0 < SIMD \<and> i < sub_group_num
      then local_data_loop bin_op SIMD sub_group_num local_data (i + SIMD)
             (bin_op val (local_data i))
      else val)"
  by pat_completeness auto
termination
  by (relation "measure (\<lambda>(bin_op, SIMD, sub_group_num, local_data, i, val). sub_group_num - i)")
     auto

declare local_data_loop.simps [simp del]

definition group_reduce ::
  "nat \<Rightarrow> nat \<Rightarrow> fp \<Rightarrow> (fp \<Rightarrow> fp \<Rightarrow> fp) \<Rightarrow> (nat \<Rightarrow> nat \<Rightarrow> nat \<Rightarrow> fp) \<Rightarrow> (nat \<Rightarrow> fp) \<Rightarrow> nat \<Rightarrow> fp" where
  "group_reduce SIMD sub_group_num init bin_op out_of_range val =
     (let sg_val = (\<lambda>idx. shuffle_loop bin_op (out_of_range idx) SIMD 1
                             (\<lambda>sg_local_id. val (idx * SIMD + sg_local_id)))
      in if sub_group_num = 1 then (\<lambda>lid_col. sg_val (lid_col div SIMD) 0)
         else
           let local_data = (\<lambda>idx. sg_val idx 0);
               val0 = (\<lambda>sg_local_id.
                         local_data_loop bin_op SIMD sub_group_num local_data (sg_local_id + SIMD)
                           (if sg_local_id < sub_group_num then local_data sg_local_id else init));
               val1 = shuffle_loop_break bin_op (out_of_range sub_group_num) SIMD sub_group_num 1 val0
           in (\<lambda>lid_col. val1 0))"

subsection \<open>The register-resident backward kernel, one work group at a time\<close>

text \<open>
  \<open>DispatchSoftmaxBackwardKernelFunctor\<close> once more, for one work item, now with the
  storage type apart and with the reduction computed from the sums of the work items
  that take part in it: the work item \<open>local_id\<close> is in row
  \<open>lid_row = local_id / local_size\<close> of its work group, and \<open>group_reduce\<close> runs over the
  \<open>local_size\<close> work items of that row, of which \<open>val lid_col\<close> is the sum before the
  reduction. \<open>out_of_range lid_row\<close> are the unspecified values of the shuffles in that
  row. The tensors hold values of \<open>scalar_t\<close>; the result is the list of the stores to
  \<open>gradInput\<close>. As before, index arithmetic is within 32 bits on this path, which the
  dispatcher takes only when 32-bit indices suffice.
\<close>

definition bwd_reg_out_st ::
  "'s scalar_type \<Rightarrow> bool \<Rightarrow> (nat \<Rightarrow> 's) \<Rightarrow> (nat \<Rightarrow> bool) \<Rightarrow> (nat \<Rightarrow> nat) \<Rightarrow> nat \<Rightarrow> 's" where
  "bwd_reg_out_st st is_masked output mask_data input_calc linear_idx =
     (if is_masked \<and> mask_data (input_calc linear_idx) then narrow st (Fin 0)
      else output linear_idx)"

definition dispatch_softmax_backward_sum ::
  "'s scalar_type \<Rightarrow> bool \<Rightarrow> (nat \<Rightarrow> 's) \<Rightarrow> (nat \<Rightarrow> 's) \<Rightarrow> nat list \<Rightarrow> fp" where
  "dispatch_softmax_backward_sum st LogSoftMax reg_out reg_gradout positions =
     foldl (\<lambda>sum_value p. fadd sum_value (bwd_addend st LogSoftMax (reg_out p) (reg_gradout p)))
       (Fin 0) positions"

definition dispatch_softmax_backward_work_group ::
  "'s scalar_type \<Rightarrow> nat \<Rightarrow> bool \<Rightarrow> bool \<Rightarrow> nat \<Rightarrow> nat \<Rightarrow> nat \<Rightarrow>
   (nat \<Rightarrow> nat \<Rightarrow> nat \<Rightarrow> nat \<Rightarrow> fp) \<Rightarrow>
   (nat \<Rightarrow> 's) \<Rightarrow> (nat \<Rightarrow> 's) \<Rightarrow> (nat \<Rightarrow> bool) \<Rightarrow> (nat \<Rightarrow> nat) \<Rightarrow>
   nat \<Rightarrow> nat \<Rightarrow> nat \<Rightarrow> nat \<Rightarrow> nat \<Rightarrow> nat \<Rightarrow> (nat \<times> 's) list" where
  "dispatch_softmax_backward_work_group st vec_size LogSoftMax is_masked NUM SIMD sub_group_num
       out_of_range output gradOutput mask_data input_calc
       dim_size outer_size local_size_row local_size group_id local_id =
     (if local_size = 1 \<and> item_global_id local_size_row local_size group_id local_id \<ge> outer_size
      then []
      else
        let lid_row = local_id div local_size;
            lid_col = local_id mod local_size;
            reg_out = bwd_reg_out_st st is_masked output mask_data input_calc;
            val = (\<lambda>c. dispatch_softmax_backward_sum st LogSoftMax reg_out gradOutput
                         (bwd_positions vec_size NUM dim_size local_size_row local_size group_id
                            (lid_row * local_size + c)));
            sum_value = (if local_size > 1
                         then group_reduce SIMD sub_group_num (Fin 0) fadd (out_of_range lid_row)
                                val lid_col
                         else val lid_col)
        in map (\<lambda>p. (p, bwd_store st LogSoftMax sum_value (reg_out p) (gradOutput p)))
             (bwd_positions vec_size NUM dim_size local_size_row local_size group_id local_id))"

subsection \<open>\<open>SoftmaxBackwardKernelFunctor\<close> and \<open>softmax_backward_kernel\<close>\<close>











subsection \<open>\<open>SpatialSoftmaxBackwardKernelFunctor\<close>\<close>




subsection \<open>The backward pass of the specification\<close>



subsection \<open>Sums of the number model\<close>

text \<open>
  The number model has no rounding: \<open>fadd\<close> is associative and commutative with unit
  \<open>Fin 0\<close>, also on the infinities and NaN. Sums over lists and sets are therefore
  available for \<open>fp\<close>, with \<open>+\<close> standing for \<open>fadd\<close> and \<open>0\<close> for \<open>Fin 0\<close>.
\<close>

instantiation fp :: comm_monoid_add
begin

definition zero_fp :: fp where
  "zero_fp = Fin 0"

definition plus_fp :: "fp \<Rightarrow> fp \<Rightarrow> fp" where
  "plus_fp a b = fadd a b"

instance
proof
  fix a b c :: fp
  show "a + b + c = a + (b + c)"
    unfolding plus_fp_def by (cases a; cases b; cases c) simp_all
  show "a + b = b + a"
    unfolding plus_fp_def by (cases a; cases b) simp_all
  show "0 + a = a"
    unfolding plus_fp_def zero_fp_def by (cases a) simp_all
qed

end


section \<open>Properties of the indexed min/max reduction\<close>

subsection \<open>The comparators are total orders on accumulators\<close>

lemma reduce_combine: "reduce cmp arg val idx = combine cmp arg \<lparr>first = val, second = idx\<rparr>"
  by (simp add: reduce_def combine_def)

lemma LessOrNan_total: "acc_le LessOrNan a b \<or> acc_le LessOrNan b a"
  by (cases a; cases b; cases "first a"; cases "first b") (auto simp: acc_le_def LessOrNan_def)

lemma LessOrNan_trans: "acc_le LessOrNan a b \<Longrightarrow> acc_le LessOrNan b c \<Longrightarrow> acc_le LessOrNan a c"
  by (cases "first a"; cases "first b"; cases "first c") (auto simp: acc_le_def LessOrNan_def split: if_splits)

lemma LessOrNan_antisym: "acc_le LessOrNan a b \<Longrightarrow> acc_le LessOrNan b a \<Longrightarrow> a = b"
  by (cases "first a"; cases "first b") (auto simp: acc_le_def LessOrNan_def split: if_splits)

lemma GreaterOrNan_total: "acc_le GreaterOrNan a b \<or> acc_le GreaterOrNan b a"
  by (cases a; cases b; cases "first a"; cases "first b") (auto simp: acc_le_def GreaterOrNan_def)

lemma GreaterOrNan_trans: "acc_le GreaterOrNan a b \<Longrightarrow> acc_le GreaterOrNan b c \<Longrightarrow> acc_le GreaterOrNan a c"
  by (cases "first a"; cases "first b"; cases "first c") (auto simp: acc_le_def GreaterOrNan_def split: if_splits)

lemma GreaterOrNan_antisym: "acc_le GreaterOrNan a b \<Longrightarrow> acc_le GreaterOrNan b a \<Longrightarrow> a = b"
  by (cases "first a"; cases "first b") (auto simp: acc_le_def GreaterOrNan_def split: if_splits)

lemma total_LessOrNan: "total_order_cmp LessOrNan"
  unfolding total_order_cmp_def using LessOrNan_total LessOrNan_trans LessOrNan_antisym by blast

lemma total_GreaterOrNan: "total_order_cmp GreaterOrNan"
  unfolding total_order_cmp_def using GreaterOrNan_total GreaterOrNan_trans GreaterOrNan_antisym by blast

lemma combine_cases: "combine cmp a b = a \<or> combine cmp a b = b"
  by (simp add: combine_def)

lemma combine_le1: "total_order_cmp cmp \<Longrightarrow> acc_le cmp (combine cmp a b) a"
proof -
  assume t: "total_order_cmp cmp"
  then have "acc_le cmp a b \<or> acc_le cmp b a" by (simp add: total_order_cmp_def)
  then show ?thesis by (auto simp: combine_def acc_le_def)
qed

lemma combine_le2: "total_order_cmp cmp \<Longrightarrow> acc_le cmp (combine cmp a b) b"
  by (auto simp: combine_def acc_le_def)

lemma acc_le_trans: "total_order_cmp cmp \<Longrightarrow> acc_le cmp a b \<Longrightarrow> acc_le cmp b c \<Longrightarrow> acc_le cmp a c"
  unfolding total_order_cmp_def by blast

lemma run_schedule_in: "run_schedule cmp t \<in> leaves t"
proof (induction t)
  case (Leaf a)
  show ?case by simp
next
  case (Merge l r)
  then show ?case using combine_cases [of cmp "run_schedule cmp l" "run_schedule cmp r"] by auto
qed

lemma run_schedule_le:
  assumes "total_order_cmp cmp" "q \<in> leaves t"
  shows "acc_le cmp (run_schedule cmp t) q"
  using assms(2)
proof (induction t)
  case (Leaf a)
  then show ?case by (simp add: acc_le_def)
next
  case (Merge l r)
  from Merge.prems have "q \<in> leaves l \<or> q \<in> leaves r" by simp
  then show ?case
  proof
    assume "q \<in> leaves l"
    then have "acc_le cmp (run_schedule cmp l) q" by (rule Merge.IH(1))
    with combine_le1 [OF assms(1), of "run_schedule cmp l" "run_schedule cmp r"]
    show ?thesis using acc_le_trans [OF assms(1)] by auto
  next
    assume "q \<in> leaves r"
    then have "acc_le cmp (run_schedule cmp r) q" by (rule Merge.IH(2))
    with combine_le2 [OF assms(1), of "run_schedule cmp l" "run_schedule cmp r"]
    show ?thesis using acc_le_trans [OF assms(1)] by auto
  qed
qed

subsection \<open>The fold returns the first extreme element\<close>

lemma fold_reduce_in:
  "fold_reduce cmp acc xs idx = acc \<or>
   (\<exists>i<length xs. fold_reduce cmp acc xs idx = \<lparr>first = xs ! i, second = idx + int i\<rparr>)"
proof (induction xs arbitrary: acc idx)
  case Nil
  show ?case by simp
next
  case (Cons x xs)
  let ?acc' = "reduce cmp acc x idx"
  from Cons.IH [of ?acc' "idx + 1"]
  consider (a) "fold_reduce cmp ?acc' xs (idx + 1) = ?acc'"
    | (b) i where "i < length xs"
        "fold_reduce cmp ?acc' xs (idx + 1) = \<lparr>first = xs ! i, second = idx + 1 + int i\<rparr>"
    by blast
  then show ?case
  proof cases
    case a
    have "?acc' = acc \<or> ?acc' = \<lparr>first = x, second = idx\<rparr>"
      by (simp add: reduce_def)
    with a show ?thesis by auto
  next
    case b
    then have "fold_reduce cmp acc (x # xs) idx = \<lparr>first = (x # xs) ! Suc i, second = idx + int (Suc i)\<rparr>"
      by simp
    moreover have "Suc i < length (x # xs)" using b(1) by simp
    ultimately show ?thesis by blast
  qed
qed

lemma fold_reduce_le:
  assumes t: "total_order_cmp cmp"
  shows "acc_le cmp (fold_reduce cmp acc xs idx) acc \<and>
         (\<forall>i<length xs. acc_le cmp (fold_reduce cmp acc xs idx) \<lparr>first = xs ! i, second = idx + int i\<rparr>)"
proof (induction xs arbitrary: acc idx)
  case Nil
  show ?case by (simp add: acc_le_def)
next
  case (Cons x xs)
  let ?acc' = "reduce cmp acc x idx"
  let ?r = "fold_reduce cmp ?acc' xs (idx + 1)"
  have r: "fold_reduce cmp acc (x # xs) idx = ?r" by simp
  have ih1: "acc_le cmp ?r ?acc'" and
       ih2: "\<And>i. i < length xs \<Longrightarrow> acc_le cmp ?r \<lparr>first = xs ! i, second = idx + 1 + int i\<rparr>"
    using Cons.IH [of ?acc' "idx + 1"] by auto
  have a1: "acc_le cmp ?acc' acc" and a2: "acc_le cmp ?acc' \<lparr>first = x, second = idx\<rparr>"
    using combine_le1 [OF t] combine_le2 [OF t] by (simp_all add: reduce_combine)
  have "acc_le cmp ?r acc" using acc_le_trans [OF t ih1 a1] .
  moreover have "acc_le cmp ?r \<lparr>first = (x # xs) ! i, second = idx + int i\<rparr>"
    if "i < length (x # xs)" for i
  proof (cases i)
    case 0
    then show ?thesis using acc_le_trans [OF t ih1 a2] by simp
  next
    case (Suc j)
    then have "j < length xs" using that by simp
    from ih2 [OF this] show ?thesis using Suc by (simp add: add.assoc)
  qed
  ultimately show ?case unfolding r by blast
qed

lemma least_is_first_min:
  assumes ne: "xs \<noteq> []" and top: "\<forall>x. x \<le> ub"
    and mem: "r = min_ident ub \<or> r \<in> slice_elems xs"
    and le: "\<forall>q\<in>slice_elems xs. acc_le LessOrNan r q"
  shows "first_min xs r"
proof -
  have e0: "\<lparr>first = xs ! 0, second = 0\<rparr> \<in> slice_elems xs"
    using ne by (force simp: slice_elems_def)
  have "r \<in> slice_elems xs"
  proof (cases "r \<in> slice_elems xs")
    case True then show ?thesis .
  next
    case False
    with mem have r: "r = min_ident ub" by simp
    from le e0 have "acc_le LessOrNan r \<lparr>first = xs ! 0, second = 0\<rparr>" by blast
    with r top have "r = \<lparr>first = xs ! 0, second = 0\<rparr>"
      by (cases "xs ! 0") (auto simp: acc_le_def LessOrNan_def min_ident_def not_less [symmetric] split: if_splits)
    with e0 show ?thesis by simp
  qed
  then obtain k where k: "k < length xs" "r = \<lparr>first = xs ! k, second = int k\<rparr>"
    by (auto simp: slice_elems_def)
  have lei: "acc_le LessOrNan r \<lparr>first = xs ! i, second = int i\<rparr>" if "i < length xs" for i
    using le that by (auto simp: slice_elems_def)
  show ?thesis
  proof (cases "NaN \<in> set xs")
    case True
    then obtain j where j: "j < length xs" "xs ! j = NaN" by (auto simp: in_set_conv_nth)
    from lei [OF j(1)] j(2) k have fn: "xs ! k = NaN"
      by (cases "xs ! k") (auto simp: acc_le_def LessOrNan_def)
    have "int k \<le> int i" if "i < length xs" "xs ! i = NaN" for i
      using lei [OF that(1)] that(2) k fn by (auto simp: acc_le_def LessOrNan_def)
    with True k fn show ?thesis by (simp add: first_min_def)
  next
    case False
    then obtain v where v: "xs ! k = Num v"
      using k(1) by (cases "xs ! k") (auto simp: in_set_conv_nth)
    have a: "v \<le> x" if "Num x \<in> set xs" for x
    proof -
      from that obtain i where i: "i < length xs" "xs ! i = Num x" by (auto simp: in_set_conv_nth)
      from lei [OF i(1)] show ?thesis using i(2) k v
        by (auto simp: acc_le_def LessOrNan_def split: if_splits)
    qed
    have b: "int k \<le> int i" if "i < length xs" "xs ! i = xs ! k" for i
      using lei [OF that(1)] that(2) k v by (auto simp: acc_le_def LessOrNan_def split: if_splits)
    from False k v a b show ?thesis by (simp add: first_min_def)
  qed
qed

lemma greatest_is_first_max:
  assumes ne: "xs \<noteq> []" and bot: "\<forall>x. lb \<le> x"
    and mem: "r = max_ident lb \<or> r \<in> slice_elems xs"
    and le: "\<forall>q\<in>slice_elems xs. acc_le GreaterOrNan r q"
  shows "first_max xs r"
proof -
  have e0: "\<lparr>first = xs ! 0, second = 0\<rparr> \<in> slice_elems xs"
    using ne by (force simp: slice_elems_def)
  have "r \<in> slice_elems xs"
  proof (cases "r \<in> slice_elems xs")
    case True then show ?thesis .
  next
    case False
    with mem have r: "r = max_ident lb" by simp
    from le e0 have "acc_le GreaterOrNan r \<lparr>first = xs ! 0, second = 0\<rparr>" by blast
    with r bot have "r = \<lparr>first = xs ! 0, second = 0\<rparr>"
      by (cases "xs ! 0") (auto simp: acc_le_def GreaterOrNan_def max_ident_def not_less [symmetric] split: if_splits)
    with e0 show ?thesis by simp
  qed
  then obtain k where k: "k < length xs" "r = \<lparr>first = xs ! k, second = int k\<rparr>"
    by (auto simp: slice_elems_def)
  have lei: "acc_le GreaterOrNan r \<lparr>first = xs ! i, second = int i\<rparr>" if "i < length xs" for i
    using le that by (auto simp: slice_elems_def)
  show ?thesis
  proof (cases "NaN \<in> set xs")
    case True
    then obtain j where j: "j < length xs" "xs ! j = NaN" by (auto simp: in_set_conv_nth)
    from lei [OF j(1)] j(2) k have fn: "xs ! k = NaN"
      by (cases "xs ! k") (auto simp: acc_le_def GreaterOrNan_def)
    have "int k \<le> int i" if "i < length xs" "xs ! i = NaN" for i
      using lei [OF that(1)] that(2) k fn by (auto simp: acc_le_def GreaterOrNan_def)
    with True k fn show ?thesis by (simp add: first_max_def)
  next
    case False
    then obtain v where v: "xs ! k = Num v"
      using k(1) by (cases "xs ! k") (auto simp: in_set_conv_nth)
    have a: "x \<le> v" if "Num x \<in> set xs" for x
    proof -
      from that obtain i where i: "i < length xs" "xs ! i = Num x" by (auto simp: in_set_conv_nth)
      from lei [OF i(1)] show ?thesis using i(2) k v
        by (auto simp: acc_le_def GreaterOrNan_def split: if_splits)
    qed
    have b: "int k \<le> int i" if "i < length xs" "xs ! i = xs ! k" for i
      using lei [OF that(1)] that(2) k v by (auto simp: acc_le_def GreaterOrNan_def split: if_splits)
    from False k v a b show ?thesis by (simp add: first_max_def)
  qed
qed

lemma fold_reduce_seed_or_elem:
  "fold_reduce cmp acc xs 0 = acc \<or> fold_reduce cmp acc xs 0 \<in> slice_elems xs"
  using fold_reduce_in [of cmp acc xs 0] by (auto simp: slice_elems_def)

lemma fold_reduce_least:
  assumes "total_order_cmp cmp"
  shows "\<forall>q\<in>slice_elems xs. acc_le cmp (fold_reduce cmp acc xs 0) q"
  using fold_reduce_le [OF assms, of acc xs 0] by (auto simp: slice_elems_def)

lemma top8: "\<forall>x::8 word. x \<le> 255"
proof
  fix x :: "8 word"
  have "unat x < 2 ^ 8" using unsigned_less [of x, where ?'a = nat] by simp
  then show "x \<le> 255" by (simp add: word_le_nat_alt)
qed

text \<open>
  Claim C1. For every non-empty slice along the reduced axis, the indexed-min operator, seeded with
  the largest value of the element type at index 0, returns the true minimum of the slice
  and the smallest index attaining it, and the indexed-max operator, seeded with the
  smallest value at index 0, returns the true maximum and the smallest index attaining it;
  if the slice contains a NaN, the returned value is NaN and the returned index is the
  smallest index among the NaN occurrences.
\<close>

theorem indexed_min_max_correct:
  assumes "xs \<noteq> []" and "\<forall>x. x \<le> upper_bound" and "\<forall>x. lower_bound \<le> x"
  shows "first_min xs (min_slice upper_bound xs) \<and> first_max xs (max_slice lower_bound xs)"
proof
  show "first_min xs (min_slice upper_bound xs)"
    unfolding min_slice_def
    by (rule least_is_first_min [OF assms(1,2) fold_reduce_seed_or_elem fold_reduce_least [OF total_LessOrNan]])
  show "first_max xs (max_slice lower_bound xs)"
    unfolding max_slice_def
    by (rule greatest_is_first_max [OF assms(1,3) fold_reduce_seed_or_elem fold_reduce_least [OF total_GreaterOrNan]])
qed

theorem indexed_min_max_correct_witness:
  "[Num 3, Num 1, Num 3, Num (2::8 word)] \<noteq> [] \<and> (\<forall>x::8 word. x \<le> 255) \<and> (\<forall>x::8 word. 0 \<le> x) \<and>
   max_slice (0::8 word) [Num 3, Num 1, Num 3, Num 2] = \<lparr>first = Num 3, second = 0\<rparr> \<and>
   min_slice (255::8 word) [Num 3, Num 1, Num 3, Num 2] = \<lparr>first = Num 1, second = 1\<rparr> \<and>
   first_min [Num 3, Num 1, Num 3, Num (2::8 word)] (min_slice 255 [Num 3, Num 1, Num 3, Num 2]) \<and>
   first_max [Num 3, Num 1, Num 3, Num (2::8 word)] (max_slice 0 [Num 3, Num 1, Num 3, Num 2])"
proof -
  have a: "[Num 3, Num 1, Num 3, Num (2::8 word)] \<noteq> []" by simp
  have b: "\<forall>x::8 word. x \<le> 255" by (rule top8)
  have c: "\<forall>x::8 word. 0 \<le> x" by simp
  have d: "max_slice (0::8 word) [Num 3, Num 1, Num 3, Num 2] = \<lparr>first = Num 3, second = 0\<rparr>"
    by (simp add: max_slice_def max_ident_def reduce_def GreaterOrNan_def)
  have e: "min_slice (255::8 word) [Num 3, Num 1, Num 3, Num 2] = \<lparr>first = Num 1, second = 1\<rparr>"
    by (simp add: min_slice_def min_ident_def reduce_def LessOrNan_def)
  from indexed_min_max_correct [OF a b c] a b c d e show ?thesis by blast
qed

text \<open>
  Claim C8, as stated, fails. The seed of the indexed-min reduction is not neutral for \<open>combine\<close> on
  every accumulator pair: merged with the pair (largest value, index 1) it returns itself,
  (largest value, index 0), not that pair.
\<close>

theorem seed_not_neutral_counterexample:
  "\<not> (\<forall>p. combine LessOrNan (min_ident (255::8 word)) p = p)"
proof
  assume "\<forall>p. combine LessOrNan (min_ident (255::8 word)) p = p"
  then have "combine LessOrNan (min_ident (255::8 word)) \<lparr>first = Num 255, second = 1\<rparr>
             = \<lparr>first = Num 255, second = 1\<rparr>" by blast
  then show False by (simp add: combine_def LessOrNan_def min_ident_def)
qed

text \<open>
  Claim C8, amended. The indexed-min reduction is seeded with (largest value of the element type,
  index 0) and the indexed-max reduction with (smallest value, index 0). Merging the seed
  with an accumulator pair returns that pair, except when the pair holds the seed's value
  at a positive index, where the seed itself is returned; and the seeded fold of a
  non-empty slice, taken from index 0, equals the fold over the real elements alone,
  started from the first element.
\<close>

theorem seed_neutral_except_ties:
  assumes "\<forall>x. x \<le> upper_bound" and "\<forall>x. lower_bound \<le> x"
  shows "combine LessOrNan (min_ident upper_bound) p =
           (if first p = Num upper_bound \<and> 0 < second p then min_ident upper_bound else p) \<and>
         combine GreaterOrNan (max_ident lower_bound) p =
           (if first p = Num lower_bound \<and> 0 < second p then max_ident lower_bound else p) \<and>
         min_slice upper_bound (x # xs) = fold_reduce LessOrNan \<lparr>first = x, second = 0\<rparr> xs 1 \<and>
         max_slice lower_bound (x # xs) = fold_reduce GreaterOrNan \<lparr>first = x, second = 0\<rparr> xs 1"
proof -
  have 1: "combine LessOrNan (min_ident upper_bound) p =
           (if first p = Num upper_bound \<and> 0 < second p then min_ident upper_bound else p)"
    using assms(1)
    by (cases p; cases "first p") (auto simp: combine_def LessOrNan_def min_ident_def not_less [symmetric])
  have 2: "combine GreaterOrNan (max_ident lower_bound) p =
           (if first p = Num lower_bound \<and> 0 < second p then max_ident lower_bound else p)"
    using assms(2)
    by (cases p; cases "first p") (auto simp: combine_def GreaterOrNan_def max_ident_def not_less [symmetric])
  have 3: "reduce LessOrNan (min_ident upper_bound) x 0 = \<lparr>first = x, second = 0\<rparr>"
    using assms(1)
    by (cases x) (auto simp: reduce_def LessOrNan_def min_ident_def not_less [symmetric])
  have 4: "reduce GreaterOrNan (max_ident lower_bound) x 0 = \<lparr>first = x, second = 0\<rparr>"
    using assms(2)
    by (cases x) (auto simp: reduce_def GreaterOrNan_def max_ident_def not_less [symmetric])
  show ?thesis using 1 2 3 4 by (simp add: min_slice_def max_slice_def)
qed

theorem seed_neutral_except_ties_witness:
  "(\<forall>x::8 word. x \<le> 255) \<and> (\<forall>x::8 word. 0 \<le> x) \<and>
   combine LessOrNan (min_ident (255::8 word)) \<lparr>first = Num 7, second = 5\<rparr> = \<lparr>first = Num 7, second = 5\<rparr> \<and>
   combine LessOrNan (min_ident (255::8 word)) \<lparr>first = Num 255, second = 5\<rparr> = min_ident 255 \<and>
   combine GreaterOrNan (max_ident (0::8 word)) \<lparr>first = NaN, second = 2\<rparr> = \<lparr>first = NaN, second = 2\<rparr> \<and>
   min_slice (255::8 word) [Num 255, Num 255] = fold_reduce LessOrNan \<lparr>first = Num 255, second = 0\<rparr> [Num 255] 1"
proof -
  have b: "\<forall>x::8 word. x \<le> 255" by (rule top8)
  have c: "\<forall>x::8 word. 0 \<le> x" by simp
  from seed_neutral_except_ties [OF b c, of "\<lparr>first = Num 7, second = 5\<rparr>" "Num 255" "[Num 255]"]
       seed_neutral_except_ties [OF b c, of "\<lparr>first = Num 255, second = 5\<rparr>" "Num 255" "[Num 255]"]
       seed_neutral_except_ties [OF b c, of "\<lparr>first = NaN, second = 2\<rparr>" "Num 255" "[Num 255]"]
       b c
  show ?thesis by simp
qed

text \<open>
  Every schedule of merges over the elements of a non-empty slice, with or without seeds
  among its leaves, returns what the fold from index 0 returns: the result does not depend
  on how work items and work groups split the slice.
\<close>

theorem any_schedule_same_result:
  assumes ne: "xs \<noteq> []" and top: "\<forall>x. x \<le> upper_bound" and bot: "\<forall>x. lower_bound \<le> x"
    and cover: "slice_elems xs \<subseteq> leaves t"
  shows "(leaves t \<subseteq> insert (min_ident upper_bound) (slice_elems xs) \<longrightarrow>
            run_schedule LessOrNan t = min_slice upper_bound xs) \<and>
         (leaves t \<subseteq> insert (max_ident lower_bound) (slice_elems xs) \<longrightarrow>
            run_schedule GreaterOrNan t = max_slice lower_bound xs)"
proof (intro conjI impI)
  assume sub: "leaves t \<subseteq> insert (min_ident upper_bound) (slice_elems xs)"
  let ?r = "run_schedule LessOrNan t" and ?m = "min_slice upper_bound xs"
  have e0: "\<lparr>first = xs ! 0, second = 0\<rparr> \<in> slice_elems xs"
    using ne by (force simp: slice_elems_def)
  have seed: "acc_le LessOrNan \<lparr>first = xs ! 0, second = 0\<rparr> (min_ident upper_bound)"
    using top by (cases "xs ! 0") (auto simp: acc_le_def LessOrNan_def min_ident_def less_le)
  have rl: "acc_le LessOrNan ?r q" if "q \<in> slice_elems xs" for q
    using run_schedule_le [OF total_LessOrNan] cover that by blast
  have ml: "acc_le LessOrNan ?m q" if "q \<in> slice_elems xs" for q
    using fold_reduce_least [OF total_LessOrNan] that by (auto simp: min_slice_def)
  have rs: "acc_le LessOrNan ?r (min_ident upper_bound)"
    using LessOrNan_trans [OF rl [OF e0] seed] .
  have ms: "acc_le LessOrNan ?m (min_ident upper_bound)"
    using LessOrNan_trans [OF ml [OF e0] seed] .
  have rin: "?r = min_ident upper_bound \<or> ?r \<in> slice_elems xs"
    using run_schedule_in [of LessOrNan t] sub by blast
  have min: "?m = min_ident upper_bound \<or> ?m \<in> slice_elems xs"
    unfolding min_slice_def by (rule fold_reduce_seed_or_elem)
  have "acc_le LessOrNan ?r ?m" using min rs rl by auto
  moreover have "acc_le LessOrNan ?m ?r" using rin ms ml by auto
  ultimately show "?r = ?m" by (rule LessOrNan_antisym)
next
  assume sub: "leaves t \<subseteq> insert (max_ident lower_bound) (slice_elems xs)"
  let ?r = "run_schedule GreaterOrNan t" and ?m = "max_slice lower_bound xs"
  have e0: "\<lparr>first = xs ! 0, second = 0\<rparr> \<in> slice_elems xs"
    using ne by (force simp: slice_elems_def)
  have seed: "acc_le GreaterOrNan \<lparr>first = xs ! 0, second = 0\<rparr> (max_ident lower_bound)"
    using bot by (cases "xs ! 0") (auto simp: acc_le_def GreaterOrNan_def max_ident_def less_le)
  have rl: "acc_le GreaterOrNan ?r q" if "q \<in> slice_elems xs" for q
    using run_schedule_le [OF total_GreaterOrNan] cover that by blast
  have ml: "acc_le GreaterOrNan ?m q" if "q \<in> slice_elems xs" for q
    using fold_reduce_least [OF total_GreaterOrNan] that by (auto simp: max_slice_def)
  have rs: "acc_le GreaterOrNan ?r (max_ident lower_bound)"
    using GreaterOrNan_trans [OF rl [OF e0] seed] .
  have ms: "acc_le GreaterOrNan ?m (max_ident lower_bound)"
    using GreaterOrNan_trans [OF ml [OF e0] seed] .
  have rin: "?r = max_ident lower_bound \<or> ?r \<in> slice_elems xs"
    using run_schedule_in [of GreaterOrNan t] sub by blast
  have min: "?m = max_ident lower_bound \<or> ?m \<in> slice_elems xs"
    unfolding max_slice_def by (rule fold_reduce_seed_or_elem)
  have "acc_le GreaterOrNan ?r ?m" using min rs rl by auto
  moreover have "acc_le GreaterOrNan ?m ?r" using rin ms ml by auto
  ultimately show "?r = ?m" by (rule GreaterOrNan_antisym)
qed


section \<open>Properties of the softmax dispatcher\<close>

lemma max_vec_size_pos: "0 < max_vec_size t"
  by (cases t) (simp_all add: max_vec_size_def float4_size_def)

lemma shrink_range_terminates:
  "0 < sg_n \<Longrightarrow> \<exists>r. shrink_range sg_n r0 = Some r"
proof (induction r0 rule: less_induct)
  case (less r0)
  show ?case
  proof (cases "sg_n \<le> r0 div 2")
    case True
    with less.prems have "r0 div 2 < r0" by simp
    from less.IH [OF this less.prems] obtain r where "shrink_range sg_n (r0 div 2) = Some r" ..
    with True show ?thesis by (subst shrink_range.simps) simp
  next
    case False
    then show ?thesis by (subst shrink_range.simps) simp
  qed
qed

lemma ceil_div_mult_ge: "0 < (k::nat) \<Longrightarrow> n \<le> k * ((n + k - 1) div k)"
proof -
  assume k: "0 < k"
  have "n + k - 1 = k * ((n + k - 1) div k) + (n + k - 1) mod k" by simp
  moreover have "(n + k - 1) mod k \<le> k - 1" using k
    by (metis Suc_pred' less_Suc_eq_le mod_less_divisor)
  ultimately show ?thesis using k by linarith
qed

lemma get_wgroup_size_covers:
  assumes wg: "0 < maxWGSize" and simd: "0 < SIMD" and vn: "0 < vec_size * NUM"
    and cap: "dim_size \<le> vec_size * NUM * maxWGSize \<or> dim_size \<le> vec_size * NUM * SIMD"
  shows "\<exists>w. get_wgroup_size SIMD vec_size NUM maxWGSize dim_size outer_size = Some w \<and>
             dim_size \<le> vec_size * NUM * wg_local_size w"
proof (cases "dim_size \<le> vec_size * NUM")
  case True
  then show ?thesis by (simp add: get_wgroup_size_def Let_def)
next
  case False
  define L0 where "L0 = (dim_size + NUM * vec_size - 1) div (NUM * vec_size)"
  define L where "L = min L0 maxWGSize"
  define sg_n where "sg_n = (L + SIMD - 1) div SIMD"
  define col where "col = sg_n * SIMD"
  have vn': "0 < NUM * vec_size" using vn by (simp add: mult.commute)
  have L0: "dim_size \<le> vec_size * NUM * L0"
    using ceil_div_mult_ge [OF vn', of dim_size] by (simp add: L0_def mult.commute)
  have "0 < L0" using False L0 by (cases L0) auto
  then have Lpos: "0 < L" using wg by (simp add: L_def)
  have colL: "L \<le> col"
    using ceil_div_mult_ge [OF simd, of L] by (simp add: col_def sg_n_def mult.commute)
  have sgnpos: "0 < sg_n" using colL Lpos by (cases sg_n) (auto simp: col_def)
  then have colS: "SIMD \<le> col" by (cases sg_n) (auto simp: col_def)
  obtain r where r: "shrink_range sg_n SIMD = Some r"
    using shrink_range_terminates [OF sgnpos] by blast
  obtain g l where gl: "enlarge_rows maxWGSize col outer_size 1 = (g, l)" by force
  have res: "get_wgroup_size SIMD vec_size NUM maxWGSize dim_size outer_size =
      Some \<lparr>wg_sub_group_num = sg_n, wg_range = Some r, wg_global_size_row = g,
            wg_local_size_row = l, wg_local_size = col\<rparr>"
    using False r gl
    unfolding get_wgroup_size_def Let_def col_def sg_n_def L_def L0_def by simp
  have "dim_size \<le> vec_size * NUM * col"
  proof (cases "L0 \<le> maxWGSize")
    case True
    then have "L = L0" by (simp add: L_def)
    with colL have "vec_size * NUM * L0 \<le> vec_size * NUM * col" by simp
    with L0 show ?thesis by linarith
  next
    case False
    then have "L = maxWGSize" by (simp add: L_def)
    with colL have a: "vec_size * NUM * maxWGSize \<le> vec_size * NUM * col" by simp
    from colS have b: "vec_size * NUM * SIMD \<le> vec_size * NUM * col" by simp
    from cap a b show ?thesis by linarith
  qed
  with res show ?thesis by simp
qed

text \<open>
  Claim C2. For every non-empty contiguous input (inner size at least 1), the forward dispatcher
  selects exactly one of three kernels: the register-resident kernel
  \<open>dispatch_softmax_forward_kernel\<close> exactly when the inner size is 1, 32-bit indexing is
  possible and \<open>max_group_size * INNER_LOOP \<ge> dim_size\<close>; the streaming kernel
  \<open>softmax_forward_kernel\<close> exactly when the inner size is 1 and the capacity or the
  32-bit-index condition fails; and the spatial kernel \<open>spatial_softmax_forward\<close> exactly
  when the inner size is greater than 1. The three results are different constructors, so
  at most one of the three holds.
\<close>

theorem forward_dispatch_three_way:
  assumes inner: "0 < inner_size"
  shows "((\<exists>v s l. SpatialSoftMaxForward scalar_t max_group_size sub_group_size_1
                inner_size dim_size input_start output_start can_use_32bit_index =
              dispatch_softmax_forward_kernel v s l) \<longleftrightarrow>
          (inner_size = 1 \<and> can_use_32bit_index \<and> max_group_size * INNER_LOOP scalar_t \<ge> dim_size)) \<and>
         ((\<exists>v i. SpatialSoftMaxForward scalar_t max_group_size sub_group_size_1
                inner_size dim_size input_start output_start can_use_32bit_index =
              softmax_forward_kernel v i) \<longleftrightarrow>
          (inner_size = 1 \<and> \<not> (can_use_32bit_index \<and> max_group_size * INNER_LOOP scalar_t \<ge> dim_size))) \<and>
         ((\<exists>v i. SpatialSoftMaxForward scalar_t max_group_size sub_group_size_1
                inner_size dim_size input_start output_start can_use_32bit_index =
              spatial_softmax_forward v i) \<longleftrightarrow>
          inner_size > 1)"
proof -
  have i1: "inner_size \<noteq> 1 \<longleftrightarrow> inner_size > 1" using inner by auto
  show ?thesis
    unfolding i1 [symmetric]
    by (simp add: SpatialSoftMaxForward_def Let_def)
qed

theorem forward_dispatch_three_way_witness:
  "(0::nat) < 1 \<and> (0::nat) < 8 \<and>
   SpatialSoftMaxForward kFloat 1024 32 1 1000 0 0 True = dispatch_softmax_forward_kernel 4 32 2 \<and>
   SpatialSoftMaxForward kFloat 1024 32 1 10000 0 0 True = softmax_forward_kernel 4 uint32_t \<and>
   SpatialSoftMaxForward kFloat 1024 32 8 1000 0 0 True = spatial_softmax_forward 4 uint32_t \<and>
   (\<exists>v i. SpatialSoftMaxForward kFloat 1024 32 1 10000 0 0 True = softmax_forward_kernel v i) \<and>
   (\<exists>v i. SpatialSoftMaxForward kFloat 1024 32 8 1000 0 0 True = spatial_softmax_forward v i)"
proof -
  have a: "(0::nat) < 1" by simp
  have b: "(0::nat) < 8" by simp
  have c: "SpatialSoftMaxForward kFloat 1024 32 1 1000 0 0 True = dispatch_softmax_forward_kernel 4 32 2"
    by (simp add: SpatialSoftMaxForward_def Let_def select_SIMD_def INNER_LOOP_def max_vec_size_def
        float4_size_def SIMD16_def SIMD32_def)
  have d: "SpatialSoftMaxForward kFloat 1024 32 1 10000 0 0 True = softmax_forward_kernel 4 uint32_t"
    by (simp add: SpatialSoftMaxForward_def Let_def select_SIMD_def INNER_LOOP_def max_vec_size_def
        float4_size_def SIMD16_def SIMD32_def)
  have e: "SpatialSoftMaxForward kFloat 1024 32 8 1000 0 0 True = spatial_softmax_forward 4 uint32_t"
    by (simp add: SpatialSoftMaxForward_def Let_def select_SIMD_def INNER_LOOP_def max_vec_size_def
        float4_size_def SIMD16_def SIMD32_def)
  have f: "\<not> (True \<and> (10000::nat) \<le> 1024 * INNER_LOOP kFloat)"
    by (simp add: INNER_LOOP_def max_vec_size_def float4_size_def)
  from forward_dispatch_three_way [OF a, of kFloat 1024 32 10000 0 0 True] f
  have g: "\<exists>v i. SpatialSoftMaxForward kFloat 1024 32 1 10000 0 0 True = softmax_forward_kernel v i"
    by simp
  from forward_dispatch_three_way [OF b, of kFloat 1024 32 1000 0 0 True]
  have h: "\<exists>v i. SpatialSoftMaxForward kFloat 1024 32 8 1000 0 0 True = spatial_softmax_forward v i"
    by simp
  from a b c d e g h show ?thesis by blast
qed

text \<open>
  Claim C7. Whenever the dispatcher selects the register-resident kernel with template arguments
  \<open>vec_size\<close>, \<open>SIMD\<close> and \<open>outer_loop\<close>, on a device whose largest work-group size is
  positive and whose sub-group width is 16 or 32, \<open>get_wgroup_size\<close> returns and the
  work-group width it chooses satisfies \<open>vec_size * outer_loop * local_size \<ge> dim_size\<close>,
  for every element type, alignment and \<open>dim_size\<close>.
\<close>

theorem fast_path_covers:
  assumes wg: "0 < max_group_size"
    and sg: "sub_group_size_1 = SIMD16 \<or> sub_group_size_1 = SIMD32"
    and sel: "SpatialSoftMaxForward scalar_t max_group_size sub_group_size_1
                inner_size dim_size input_start output_start can_use_32bit_index =
              dispatch_softmax_forward_kernel vec_size SIMD outer_loop"
  shows "\<exists>w. get_wgroup_size SIMD vec_size outer_loop max_group_size dim_size outer_size = Some w \<and>
             dim_size \<le> vec_size * outer_loop * wg_local_size w"
proof -
  have mvs: "0 < max_vec_size scalar_t" by (rule max_vec_size_pos)
  have "0 < SIMD \<and> 0 < vec_size * outer_loop \<and>
        (dim_size \<le> vec_size * outer_loop * max_group_size \<or> dim_size \<le> vec_size * outer_loop * SIMD)"
    using sel sg mvs
    by (auto simp: SpatialSoftMaxForward_def Let_def select_SIMD_def INNER_LOOP_def SIMD16_def SIMD32_def
        mult.commute split: if_splits)
  with wg show ?thesis using get_wgroup_size_covers by blast
qed

theorem fast_path_covers_witness:
  "(0::nat) < 1024 \<and> ((32::nat) = SIMD16 \<or> (32::nat) = SIMD32) \<and>
   SpatialSoftMaxForward kFloat 1024 32 1 1000 0 0 True = dispatch_softmax_forward_kernel 4 32 2 \<and>
   (\<exists>w. get_wgroup_size 32 4 2 1024 1000 64 = Some w \<and> 1000 \<le> 4 * 2 * wg_local_size w)"
proof -
  have a: "(0::nat) < 1024" by simp
  have b: "(32::nat) = SIMD16 \<or> (32::nat) = SIMD32" by (simp add: SIMD32_def)
  have c: "SpatialSoftMaxForward kFloat 1024 32 1 1000 0 0 True = dispatch_softmax_forward_kernel 4 32 2"
    by (simp add: SpatialSoftMaxForward_def Let_def select_SIMD_def INNER_LOOP_def max_vec_size_def
      float4_size_def SIMD16_def SIMD32_def)
  from fast_path_covers [OF a b c, of 64] a b c show ?thesis by blast
qed


section \<open>Properties of the host-side checks\<close>

lemma trailing_loop_no_zero:
  assumes "\<forall>i\<in>set js. other_size ! (length other_size - i) \<noteq> 0"
  shows "trailing_loop input_size other_size js =
         Inr (\<forall>i\<in>set js. other_size ! (length other_size - i) dvd input_size ! (length input_size - i))"
  using assms
  by (induction js) (auto simp: mod_eq_0_iff_dvd)

lemma shape_use_fused_path_no_zero:
  assumes "0 \<notin> set (sizes other)"
  shows "shape_use_fused_path input other = Inr (trailing_dims_divide (sizes input) (sizes other))"
proof -
  have nz: "\<forall>i\<in>set [1..<ndim other + 1]. sizes other ! (length (sizes other) - i) \<noteq> 0"
  proof
    fix i assume "i \<in> set [1..<ndim other + 1]"
    then have "length (sizes other) - i < length (sizes other)" by (auto simp: ndim_def)
    then have "sizes other ! (length (sizes other) - i) \<in> set (sizes other)" by (rule nth_mem)
    with assms show "sizes other ! (length (sizes other) - i) \<noteq> 0" by metis
  qed
  show ?thesis
    unfolding shape_use_fused_path_def Let_def trailing_loop_no_zero [OF nz]
    by (auto simp: trailing_dims_divide_def ndim_def)
qed

lemma add_softmax_fused_only_if:
  assumes "add_softmax input other dtype_opt max_group_size sub_group_size_1
             inner_size dim_size input_start output_start can_use_32bit_index =
           Inr (dispatch_softmax_forward_add_kernel v s l)"
  shows "shape_use_fused_path input other = Inr True \<and> dtype input = dtype other"
  using assms by (auto simp: add_softmax_def split: sum.splits if_splits)

lemma add_softmax_unfused_otherwise:
  assumes "shape_use_fused_path input other = Inr False \<or>
           (shape_use_fused_path input other = Inr True \<and> dtype input \<noteq> dtype other)"
  shows "add_softmax input other dtype_opt max_group_size sub_group_size_1
             inner_size dim_size input_start output_start can_use_32bit_index = Inr softmax_of_add"
  using assms by (auto simp: add_softmax_def split: sum.splits if_splits)

text \<open>
  Claim C6. \<open>shape_use_fused_path\<close> does not return for every pair of shapes: for an input of
  sizes [3, 2] and another operand of sizes [0] the loop evaluates \<open>2 % 0\<close>, an integer
  division by zero. (Where no extent of the other operand is zero, the function returns
  what the claim says, and \<open>add_softmax\<close> takes the fused kernel only when the test
  holds and the element types agree: the four lemmas above.)
\<close>

theorem shape_use_fused_path_zero_extent:
  "shape_use_fused_path \<lparr>sizes = [3, 2], dtype = kFloat\<rparr> \<lparr>sizes = [0], dtype = kFloat\<rparr>
     = Inl DivisionByZero"
  by (simp add: shape_use_fused_path_def ndim_def)

text \<open>
  Claim C9, as stated, fails. A one-element input of one dimension is not the trivial
  case of the framework helper: the call goes on to the reduction kernel.
\<close>

theorem single_element_counterexample:
  "numel \<lparr>sizes = [1], dtype = kFloat\<rparr> = 1 \<and>
   min_out \<lparr>sizes = [1], dtype = kFloat\<rparr> 0 False = Inr (ReduceKernel Min) \<and>
   max_out \<lparr>sizes = [1], dtype = kFloat\<rparr> 0 False = Inr (ReduceKernel Max)"
  by (simp add: min_out_def max_out_def min_max_out_def maybe_wrap_dim_def
      dimreduce_return_trivial_no_ident_def numel_def ndim_def ALL_TYPES_AND3_def)

text \<open>
  Claim C9, amended. For a valid axis: an empty input is handed to the framework's resize
  of the outputs and no reduction kernel is launched; for an input of no dimension (it has
  one element) the index is set to 0 with no reduction kernel launched; a complex input
  that is not empty is rejected with an error before any kernel launch, by the explicit
  check when it has no dimension and by the type dispatch otherwise; and every other
  input that is not empty, a one-element input of one or more dimensions among them, goes
  to the reduction kernel when the type dispatch accepts its element type. This holds for
  \<open>_min_out\<close> and \<open>_max_out\<close> alike.
\<close>

theorem min_max_out_edge_cases:
  assumes "maybe_wrap_dim d (int (ndim self)) = Inr d'"
  shows "(numel self = 0 \<longrightarrow>
            min_out self d keepdim = Inr ZeroNumelResize \<and>
            max_out self d keepdim = Inr ZeroNumelResize) \<and>
         (ndim self = 0 \<and> \<not> is_complex self \<longrightarrow>
            min_out self d keepdim = Inr TrivialIndexZero \<and>
            max_out self d keepdim = Inr TrivialIndexZero) \<and>
         (ndim self = 0 \<and> is_complex self \<longrightarrow>
            min_out self d keepdim = Inl ComplexNotSupported \<and>
            max_out self d keepdim = Inl ComplexNotSupported) \<and>
         (numel self \<noteq> 0 \<and> ndim self \<noteq> 0 \<and> is_complex self \<longrightarrow>
            min_out self d keepdim = Inl NotImplementedForDtype \<and>
            max_out self d keepdim = Inl NotImplementedForDtype) \<and>
         (numel self \<noteq> 0 \<and> ndim self \<noteq> 0 \<and> dtype self \<in> ALL_TYPES_AND3 \<longrightarrow>
            min_out self d keepdim = Inr (ReduceKernel Min) \<and>
            max_out self d keepdim = Inr (ReduceKernel Max))"
  using assms
  by (auto simp: min_out_def max_out_def min_max_out_def is_complex_def ALL_TYPES_AND3_def
      dimreduce_return_trivial_no_ident_def numel_def ndim_def)

theorem min_max_out_edge_cases_witness:
  "maybe_wrap_dim (-1) (int (ndim \<lparr>sizes = [0, 3], dtype = kFloat\<rparr>)) = Inr 1 \<and>
   min_out \<lparr>sizes = [0, 3], dtype = kFloat\<rparr> (-1) False = Inr ZeroNumelResize \<and>
   maybe_wrap_dim 0 (int (ndim \<lparr>sizes = [], dtype = kLong\<rparr>)) = Inr 0 \<and>
   max_out \<lparr>sizes = [], dtype = kLong\<rparr> 0 False = Inr TrivialIndexZero \<and>
   maybe_wrap_dim 0 (int (ndim \<lparr>sizes = [], dtype = kComplexFloat\<rparr>)) = Inr 0 \<and>
   min_out \<lparr>sizes = [], dtype = kComplexFloat\<rparr> 0 False = Inl ComplexNotSupported \<and>
   maybe_wrap_dim 1 (int (ndim \<lparr>sizes = [1, 1], dtype = kInt\<rparr>)) = Inr 1 \<and>
   max_out \<lparr>sizes = [1, 1], dtype = kInt\<rparr> 1 True = Inr (ReduceKernel Max)"
proof -
  have a: "maybe_wrap_dim (-1) (int (ndim \<lparr>sizes = [0, 3], dtype = kFloat\<rparr>)) = Inr 1"
    by (simp add: maybe_wrap_dim_def ndim_def)
  have b: "maybe_wrap_dim 0 (int (ndim \<lparr>sizes = [], dtype = kLong\<rparr>)) = Inr 0"
    by (simp add: maybe_wrap_dim_def ndim_def)
  have c: "maybe_wrap_dim 0 (int (ndim \<lparr>sizes = [], dtype = kComplexFloat\<rparr>)) = Inr 0"
    by (simp add: maybe_wrap_dim_def ndim_def)
  have e: "maybe_wrap_dim 1 (int (ndim \<lparr>sizes = [1, 1], dtype = kInt\<rparr>)) = Inr 1"
    by (simp add: maybe_wrap_dim_def ndim_def)
  show ?thesis
    using min_max_out_edge_cases [OF a, of False]
      min_max_out_edge_cases [OF b, of False]
      min_max_out_edge_cases [OF c, of False]
      min_max_out_edge_cases [OF e, of True] a b c e
    by (simp add: numel_def ndim_def is_complex_def ALL_TYPES_AND3_def)
qed

text \<open>
  Claim C10, as stated, fails. The backward accepts a mask whose sizes differ from the sizes of the gradient:
  a 0-dimensional Bool mask for a gradient of sizes [1], because both are viewed as
  one-element vectors before the sizes are compared.
\<close>

theorem masked_softmax_backward_counterexample:
  "masked_softmax_backward \<lparr>sizes = [1], dtype = kFloat\<rparr> \<lparr>sizes = [1], dtype = kFloat\<rparr>
      \<lparr>sizes = [], dtype = kBool\<rparr> None = Inr (Dispatched 0 \<lparr>sizes = [1], dtype = kBool\<rparr>) \<and>
   sizes \<lparr>sizes = [], dtype = kBool\<rparr> \<noteq> sizes \<lparr>sizes = [1], dtype = kFloat\<rparr>"
  by (simp add: masked_softmax_backward_def numel_def ndim_def view1_def Let_def FLOATING_TYPES_AND2_def)

text \<open>
  Claim C10, amended. The masked-softmax backward accepts only a mask whose sizes equal the sizes of the
  gradient once every 0-dimensional tensor is viewed as a one-element vector, and whose
  element type is Bool, and raises an error otherwise; the forward accepts the BxT and TxT
  mask shapes; and when the gradient has no elements the backward returns the freshly
  allocated gradient at once, with no kernel launch and no validation of the mask.
\<close>

theorem masked_softmax_backward_validation:
  "(numel grad = 0 \<longrightarrow>
      masked_softmax_backward grad output mask_t dim_opt = Inr ReturnedEmptyGrad) \<and>
   (\<forall>d m. masked_softmax_backward grad output mask_t dim_opt = Inr (Dispatched d m) \<longrightarrow>
      sizes (view1 mask_t) = sizes (view1 grad) \<and> dtype mask_t = kBool) \<and>
   (numel grad \<noteq> 0 \<and> (sizes (view1 mask_t) \<noteq> sizes (view1 grad) \<or> dtype mask_t \<noteq> kBool) \<longrightarrow>
      (\<exists>e. masked_softmax_backward grad output mask_t dim_opt = Inl e)) \<and>
   (dtype mask_t = kBool \<and> dtype input \<in> FLOATING_TYPES_AND2 \<and>
    (is_BxT_mask input mask_t mask_type \<or> is_TxT_mask input mask_t mask_type) \<longrightarrow>
      (\<exists>d m. masked_softmax input mask_t dim_opt' (Some mask_type) = Inr (Dispatched d m)))"
proof -
  have v: "dtype (view1 t) = dtype t" for t by (simp add: view1_def)
  show ?thesis
    by (auto simp: masked_softmax_backward_def masked_softmax_def Let_def v
        is_BxT_mask_def is_TxT_mask_def split: sum.splits option.splits if_splits)
qed

theorem masked_softmax_backward_validation_witness:
  "numel \<lparr>sizes = [0, 4], dtype = kFloat\<rparr> = 0 \<and>
   masked_softmax_backward \<lparr>sizes = [0, 4], dtype = kFloat\<rparr> \<lparr>sizes = [0, 4], dtype = kFloat\<rparr>
      \<lparr>sizes = [7], dtype = kInt\<rparr> None = Inr ReturnedEmptyGrad \<and>
   masked_softmax_backward \<lparr>sizes = [2, 4], dtype = kFloat\<rparr> \<lparr>sizes = [2, 4], dtype = kFloat\<rparr>
      \<lparr>sizes = [2, 4], dtype = kBool\<rparr> None = Inr (Dispatched 1 \<lparr>sizes = [2, 4], dtype = kBool\<rparr>) \<and>
   sizes (view1 \<lparr>sizes = [2, 4], dtype = kBool\<rparr>) = sizes (view1 \<lparr>sizes = [2, 4], dtype = kFloat\<rparr>) \<and>
   numel \<lparr>sizes = [2, 3, 4, 4], dtype = kFloat\<rparr> \<noteq> 0 \<and>
   sizes (view1 \<lparr>sizes = [2, 4], dtype = kBool\<rparr>) \<noteq> sizes (view1 \<lparr>sizes = [2, 3, 4, 4], dtype = kFloat\<rparr>) \<and>
   (\<exists>e. masked_softmax_backward \<lparr>sizes = [2, 3, 4, 4], dtype = kFloat\<rparr>
           \<lparr>sizes = [2, 3, 4, 4], dtype = kFloat\<rparr> \<lparr>sizes = [2, 4], dtype = kBool\<rparr> None = Inl e) \<and>
   is_BxT_mask \<lparr>sizes = [2, 3, 4, 4], dtype = kFloat\<rparr> \<lparr>sizes = [2, 4], dtype = kBool\<rparr> 1 \<and>
   (\<exists>d m. masked_softmax \<lparr>sizes = [2, 3, 4, 4], dtype = kFloat\<rparr> \<lparr>sizes = [2, 4], dtype = kBool\<rparr>
            None (Some 1) = Inr (Dispatched d m))"
proof -
  let ?e = "\<lparr>sizes = [0, 4], dtype = kFloat\<rparr>"
  let ?g = "\<lparr>sizes = [2, 4], dtype = kFloat\<rparr>"
  let ?i = "\<lparr>sizes = [2, 3, 4, 4], dtype = kFloat\<rparr>"
  let ?m = "\<lparr>sizes = [2, 4], dtype = kBool\<rparr>"
  have a: "numel ?e = 0" by (simp add: numel_def)
  have b: "masked_softmax_backward ?g ?g ?m None = Inr (Dispatched 1 ?m)"
    by (simp add: masked_softmax_backward_def numel_def ndim_def view1_def Let_def
        FLOATING_TYPES_AND2_def)
  have c: "numel ?i \<noteq> 0" by (simp add: numel_def)
  have d: "sizes (view1 ?m) \<noteq> sizes (view1 ?i)" by (simp add: view1_def ndim_def)
  have e: "is_BxT_mask ?i ?m 1" by (simp add: is_BxT_mask_def ndim_def)
  have f: "dtype ?m = kBool \<and> dtype ?i \<in> FLOATING_TYPES_AND2"
    by (simp add: FLOATING_TYPES_AND2_def)
  from masked_softmax_backward_validation [of ?e ?e "\<lparr>sizes = [7], dtype = kInt\<rparr>" None ?i 1 None] a
  have 1: "masked_softmax_backward ?e ?e \<lparr>sizes = [7], dtype = kInt\<rparr> None = Inr ReturnedEmptyGrad"
    by blast
  from masked_softmax_backward_validation [of ?g ?g ?m None ?i 1 None] b
  have 2: "sizes (view1 ?m) = sizes (view1 ?g)" by blast
  from masked_softmax_backward_validation [of ?i ?i ?m None ?i 1 None] c d e f
  have 3: "(\<exists>e. masked_softmax_backward ?i ?i ?m None = Inl e) \<and>
           (\<exists>d m. masked_softmax ?i ?m None (Some 1) = Inr (Dispatched d m))"
    by blast
  from a b c d e 1 2 3 show ?thesis by blast
qed

section \<open>Properties of the masked softmax kernels\<close>

lemmas kdefs = DispatchSoftmaxForwardKernelFunctor_def item_global_id_def fwd_lid_col_def
      fwd_group_offset_def fwd_reg_in_def fwd_positions_def fwd_index_def fwd_max_value_def
      fwd_sum_value_def fwd_sum_final_def fwd_result_def fp_max_def fsub_def Let_def upt_rec
      DispatchSoftmaxBackwardKernelFunctor_def bwd_index_def bwd_positions_def bwd_reg_out_def
      bwd_sum_value_def bwd_partial_sum_def bwd_result_def

lemmas ddefs = MaskedSoftMaxForward_def MaskedSoftMaxBackward_def backward_NUM_def
  select_SIMD_def INNER_LOOP_def max_vec_size_def float4_size_def SIMD16_def SIMD32_def Let_def

lemma fadd_zero_right: "fadd s (Fin 0) = s"
  by (cases s) simp_all

lemma foldl_max_all_NInf:
  assumes "Numerics_max (Fin lowest) NInf = Fin lowest" and "\<forall>x\<in>set xs. x = NInf"
  shows "foldl Numerics_max (Fin lowest) xs = Fin lowest"
  using assms(2) by (induction xs rule: rev_induct) (simp_all add: assms(1))

lemma foldl_sum_all_NInf:
  assumes "\<forall>x\<in>set xs. x = NInf"
  shows "foldl (\<lambda>s x. fadd s (fexp (fsub x (Fin m)))) (Fin 0) xs = Fin 0"
  using assms by (induction xs rule: rev_induct) (simp_all add: fsub_def)

lemma masked_term_zero:
  assumes "max_value = PInf \<or> (\<exists>a. max_value = Fin a)"
  shows "fexp (fsub NInf max_value) = Fin 0"
  using assms by (auto simp: fsub_def)

text \<open>
  Claim C5, as stated, fails. A row of four elements whose positions are all masked is
  accepted by the masked softmax and handled by the masked register-resident kernel with
  one work item per row; the sum of the exponentials is zero and the value stored at every
  position of the row is NaN, not 0.
\<close>

theorem fully_masked_row_counterexample:
  "masked_softmax \<lparr>sizes = [4], dtype = kFloat\<rparr> \<lparr>sizes = [4], dtype = kBool\<rparr> None (Some 2)
     = Inr (Dispatched 0 \<lparr>sizes = [4], dtype = kBool\<rparr>) \<and>
   MaskedSoftMaxForward kFloat 1024 32 1 4 0 0 True =
     Inr (masked_dispatch_softmax_forward_kernel 4 16 1) \<and>
   get_wgroup_size 16 4 1 1024 4 1 =
     Some \<lparr>wg_sub_group_num = 1, wg_range = None, wg_global_size_row = 1,
           wg_local_size_row = 16, wg_local_size = 1\<rparr> \<and>
   DispatchSoftmaxForwardKernelFunctor 4 False 1 True fp_max (- 1000) id id
     (\<lambda>p. Fin (real p)) (\<lambda>p. True) id 4 1 16 1 0 0
   = [(0, QNaN), (1, QNaN), (2, QNaN), (3, QNaN)]"
  by (simp add: kdefs ddefs get_wgroup_size_def masked_softmax_def ndim_def view1_def
      is_BxT_mask_def is_TxT_mask_def FLOATING_TYPES_AND2_def)

text \<open>
  Claim C5, amended. In the masked register-resident kernels, for every work item and
  whatever the group reductions deliver: a masked position is loaded as minus infinity,
  and the forward value stored at it is 0 whenever the row maximum is finite or plus
  infinity and the sum of the exponentials is finite and not zero; when that sum is zero
  the value stored at every position is NaN, and the sum is zero for a work item that
  handles a row alone and finds every position masked. In the backward kernel the output
  term of a masked position is set to 0 before the gradient sum: the gradient stored at a
  masked position is 0 when the incoming gradient there and the sum are finite, and for
  finite incoming gradients at the masked positions the work item's sum equals the sum
  over its unmasked positions alone.
\<close>

theorem masked_softmax_positions:
  fixes vec_size outer_loop NUM dim_size outer_size local_size_row local_size group_id local_id :: nat
    and in_data outp gradOutput :: "nat \<Rightarrow> fp" and mask_data :: "nat \<Rightarrow> bool"
    and input_calc :: "nat \<Rightarrow> nat" and Numerics_max :: "fp \<Rightarrow> fp \<Rightarrow> fp" and lowest :: real
    and group_reduce_max group_reduce_sum :: "fp \<Rightarrow> fp"
  defines "positions \<equiv> fwd_positions vec_size outer_loop dim_size local_size_row local_size group_id local_id"
  defines "reg_in \<equiv> map (fwd_reg_in True in_data mask_data input_calc) positions"
  defines "max_value \<equiv> fwd_max_value Numerics_max lowest group_reduce_max local_size reg_in"
  defines "sum_value \<equiv> fwd_sum_value group_reduce_sum local_size max_value reg_in"
  defines "writes \<equiv> DispatchSoftmaxForwardKernelFunctor vec_size False outer_loop True
                      Numerics_max lowest group_reduce_max group_reduce_sum
                      in_data mask_data input_calc
                      dim_size outer_size local_size_row local_size group_id local_id"
  defines "bpositions \<equiv> bwd_positions vec_size NUM dim_size local_size_row local_size group_id local_id"
  defines "bsum \<equiv> bwd_sum_value False group_reduce_sum local_size
                     (bwd_reg_out True outp mask_data input_calc) gradOutput bpositions"
  defines "bwrites \<equiv> DispatchSoftmaxBackwardKernelFunctor vec_size False True NUM group_reduce_sum
                      outp gradOutput mask_data input_calc
                      dim_size outer_size local_size_row local_size group_id local_id"
  shows "(\<forall>p v. (p, v) \<in> set writes \<and> mask_data (input_calc p) \<and>
                 (max_value = PInf \<or> (\<exists>a. max_value = Fin a)) \<and>
                 (\<exists>r. sum_value = Fin r \<and> r \<noteq> 0) \<longrightarrow> v = Fin 0) \<and>
         (\<forall>p v. (p, v) \<in> set writes \<and> sum_value = Fin 0 \<longrightarrow> v = QNaN) \<and>
         (local_size = 1 \<and> (\<forall>p\<in>set positions. mask_data (input_calc p)) \<and>
          Numerics_max (Fin lowest) NInf = Fin lowest \<longrightarrow> sum_value = Fin 0) \<and>
         (\<forall>p v. (p, v) \<in> set bwrites \<and> mask_data (input_calc p) \<and>
                 (\<exists>g. gradOutput p = Fin g) \<and> (\<exists>t. bsum = Fin t) \<longrightarrow> v = Fin 0) \<and>
         ((\<forall>p\<in>set bpositions. mask_data (input_calc p) \<longrightarrow> (\<exists>g. gradOutput p = Fin g)) \<longrightarrow>
          bwd_sum_value False id 1 (bwd_reg_out True outp mask_data input_calc) gradOutput bpositions =
          bwd_sum_value False id 1 outp gradOutput
            (filter (\<lambda>p. \<not> mask_data (input_calc p)) bpositions))"
proof (intro conjI allI impI)
  fix p v
  assume a: "(p, v) \<in> set writes \<and> mask_data (input_calc p) \<and>
             (max_value = PInf \<or> (\<exists>a. max_value = Fin a)) \<and> (\<exists>r. sum_value = Fin r \<and> r \<noteq> 0)"
  then obtain r where r: "sum_value = Fin r" "r \<noteq> 0" by blast
  from a have v: "v = fwd_result False max_value (fwd_sum_final False sum_value) NInf"
    by (auto simp: writes_def DispatchSoftmaxForwardKernelFunctor_def Let_def fwd_reg_in_def
        positions_def reg_in_def max_value_def sum_value_def split: if_splits)
  from a have "fexp (fsub NInf max_value) = Fin 0" by (intro masked_term_zero) blast
  with r v show "v = Fin 0" by (simp add: fwd_result_def fwd_sum_final_def)
next
  fix p v
  assume a: "(p, v) \<in> set writes \<and> sum_value = Fin 0"
  then show "v = QNaN"
    by (auto simp: writes_def DispatchSoftmaxForwardKernelFunctor_def Let_def
        positions_def reg_in_def max_value_def sum_value_def fwd_result_def fwd_sum_final_def
        split: if_splits)
next
  assume a: "local_size = 1 \<and> (\<forall>p\<in>set positions. mask_data (input_calc p)) \<and>
             Numerics_max (Fin lowest) NInf = Fin lowest"
  then have all: "\<forall>x\<in>set reg_in. x = NInf" by (auto simp: reg_in_def fwd_reg_in_def)
  from a have m: "max_value = Fin lowest"
    using foldl_max_all_NInf [OF _ all, of Numerics_max lowest]
    by (simp add: max_value_def fwd_max_value_def)
  show "sum_value = Fin 0"
    using a foldl_sum_all_NInf [OF all, of lowest]
    by (simp add: sum_value_def fwd_sum_value_def m)
next
  fix p v
  assume a: "(p, v) \<in> set bwrites \<and> mask_data (input_calc p) \<and>
             (\<exists>g. gradOutput p = Fin g) \<and> (\<exists>t. bsum = Fin t)"
  then obtain g t where g: "gradOutput p = Fin g" and t: "bsum = Fin t" by blast
  from a have "v = bwd_result False bsum (Fin 0) (gradOutput p)"
    by (auto simp: bwrites_def DispatchSoftmaxBackwardKernelFunctor_def Let_def bwd_reg_out_def
        bsum_def bpositions_def split: if_splits)
  with g t show "v = Fin 0" by (simp add: bwd_result_def fsub_def)
next
  assume "\<forall>p\<in>set bpositions. mask_data (input_calc p) \<longrightarrow> (\<exists>g. gradOutput p = Fin g)"
  then have "foldl (\<lambda>s p. fadd s (fmul (bwd_reg_out True outp mask_data input_calc p) (gradOutput p)))
               s0 bpositions =
             foldl (\<lambda>s p. fadd s (fmul (outp p) (gradOutput p))) s0
               (filter (\<lambda>p. \<not> mask_data (input_calc p)) bpositions)" for s0
    by (induction bpositions arbitrary: s0) (auto simp: bwd_reg_out_def fadd_zero_right)
  then show "bwd_sum_value False id 1 (bwd_reg_out True outp mask_data input_calc) gradOutput bpositions =
          bwd_sum_value False id 1 outp gradOutput
            (filter (\<lambda>p. \<not> mask_data (input_calc p)) bpositions)"
    by (simp add: bwd_sum_value_def bwd_partial_sum_def)
qed

theorem masked_softmax_positions_witness:
  "(1, Fin 0) \<in> set (DispatchSoftmaxForwardKernelFunctor 2 False 1 True fp_max (- 1000) id id
                        (\<lambda>p. Fin 0) (\<lambda>p. p = 1) id 2 1 16 1 0 0) \<and>
   fwd_max_value fp_max (- 1000) id 1
     (map (fwd_reg_in True (\<lambda>p. Fin 0) (\<lambda>p. p = 1) id) (fwd_positions 2 1 2 16 1 0 0)) = Fin 0 \<and>
   fwd_sum_value id 1 (Fin 0)
     (map (fwd_reg_in True (\<lambda>p. Fin 0) (\<lambda>p. p = 1) id) (fwd_positions 2 1 2 16 1 0 0)) = Fin 1 \<and>
   fp_max (Fin (- 1000)) NInf = Fin (- 1000) \<and>
   fwd_positions 4 1 4 16 1 0 0 = [0, 1, 2, 3] \<and>
   fwd_sum_value id 1 (fwd_max_value fp_max (- 1000) id 1
       (map (fwd_reg_in True (\<lambda>p. Fin (real p)) (\<lambda>p. True) id) (fwd_positions 4 1 4 16 1 0 0)))
     (map (fwd_reg_in True (\<lambda>p. Fin (real p)) (\<lambda>p. True) id) (fwd_positions 4 1 4 16 1 0 0)) = Fin 0 \<and>
   (1, Fin 0) \<in> set (DispatchSoftmaxBackwardKernelFunctor 2 False True 1 id
                        (\<lambda>p. Fin (1/2)) (\<lambda>p. Fin (real p + 1)) (\<lambda>p. p = 1) id 2 1 16 1 0 0) \<and>
   bwd_sum_value False id 1 (bwd_reg_out True (\<lambda>p. Fin (1/2)) (\<lambda>p. p = 1) id)
     (\<lambda>p. Fin (real p + 1)) (bwd_positions 2 1 2 16 1 0 0) = Fin (1/2) \<and>
   bwd_sum_value False id 1 (\<lambda>p. Fin (1/2)) (\<lambda>p. Fin (real p + 1))
     (filter (\<lambda>p. \<not> p = 1) (bwd_positions 2 1 2 16 1 0 0)) = Fin (1/2)"
proof -
  have pos4: "fwd_positions 4 1 4 16 1 0 0 = [0, 1, 2, 3]" by (simp add: kdefs)
  have mx: "fp_max (Fin (- 1000)) NInf = Fin (- 1000)" by (simp add: fp_max_def)
  have all: "\<forall>p\<in>set (fwd_positions 4 1 4 16 1 0 0). True" by simp
  note A = masked_softmax_positions
    [where vec_size = 2 and outer_loop = 1 and dim_size = 2 and outer_size = 1
       and local_size_row = 16 and local_size = 1 and group_id = 0 and local_id = 0
       and in_data = "\<lambda>p. Fin 0" and mask_data = "\<lambda>p. p = 1" and input_calc = id
       and Numerics_max = fp_max and lowest = "- 1000" and group_reduce_max = id
       and group_reduce_sum = id and NUM = 1 and outp = "\<lambda>p. Fin (1/2)"
       and gradOutput = "\<lambda>p. Fin (real p + 1)"]
  note B = masked_softmax_positions
    [where vec_size = 4 and outer_loop = 1 and dim_size = 4 and outer_size = 1
       and local_size_row = 16 and local_size = 1 and group_id = 0 and local_id = 0
       and in_data = "\<lambda>p. Fin (real p)" and mask_data = "\<lambda>p. True" and input_calc = id
       and Numerics_max = fp_max and lowest = "- 1000" and group_reduce_max = id
       and group_reduce_sum = id and NUM = 1 and outp = "\<lambda>p. Fin (1/2)"
       and gradOutput = "\<lambda>p. Fin (real p + 1)"]
  from B mx have b: "fwd_sum_value id 1 (fwd_max_value fp_max (- 1000) id 1
       (map (fwd_reg_in True (\<lambda>p. Fin (real p)) (\<lambda>p. True) id) (fwd_positions 4 1 4 16 1 0 0)))
     (map (fwd_reg_in True (\<lambda>p. Fin (real p)) (\<lambda>p. True) id) (fwd_positions 4 1 4 16 1 0 0)) = Fin 0"
    by simp
  from A have c: "bwd_sum_value False id 1 (bwd_reg_out True (\<lambda>p. Fin (1/2)) (\<lambda>p. p = 1) id)
     (\<lambda>p. Fin (real p + 1)) (bwd_positions 2 1 2 16 1 0 0) =
     bwd_sum_value False id 1 (\<lambda>p. Fin (1/2)) (\<lambda>p. Fin (real p + 1))
     (filter (\<lambda>p. \<not> p = 1) (bwd_positions 2 1 2 16 1 0 0))"
    by simp
  have d: "bwd_sum_value False id 1 (\<lambda>p. Fin (1/2)) (\<lambda>p. Fin (real p + 1))
     (filter (\<lambda>p. \<not> p = 1) (bwd_positions 2 1 2 16 1 0 0)) = Fin (1/2)"
    by (simp add: kdefs)
  show ?thesis
    using b c d mx pos4 by (simp add: kdefs)
qed

section \<open>Properties of the forward kernels when the sum is zero\<close>







lemma ceil_div_less: "0 < (L::nat) \<Longrightarrow> (k < (n + L - 1) div L) = (k * L < n)"
proof -
  assume L: "0 < L"
  have "((n + L - 1) div L \<le> k) = (n + L - 1 < (k + 1) * L)"
    using L by (metis Suc_eq_plus1 div_less_iff_less_mult less_Suc_eq_le)
  also have "\<dots> = (n \<le> k * L)" using L by auto
  finally show ?thesis by auto
qed





section \<open>The backward pass in the three tiers\<close>

subsection \<open>Sums over strided and tiled index sets\<close>





lemma strided_sum:
  fixes h :: "nat \<Rightarrow> 'a::comm_monoid_add"
  assumes L: "0 < L"
  shows "(\<Sum>l<L. \<Sum>k<(E - l + L - 1) div L. h (l + k * L)) = (\<Sum>i<E. h i)"
proof -
  have "(\<Sum>l<L. \<Sum>k<(E - l + L - 1) div L. h (l + k * L)) =
        (\<Sum>(l, k)\<in>(SIGMA l:{..<L}. {..<(E - l + L - 1) div L}). h (l + k * L))"
    by (simp add: sum.Sigma)
  also have "\<dots> = (\<Sum>i<E. h i)"
  proof (rule sum.reindex_bij_witness [where i = "\<lambda>i. (i mod L, i div L)" and j = "\<lambda>(l, k). l + k * L"])
    fix a assume "a \<in> (SIGMA l:{..<L}. {..<(E - l + L - 1) div L})"
    then obtain l k where a: "a = (l, k)" "l < L" "k < (E - l + L - 1) div L" by auto
    from a(3) have kl: "k * L < E - l" using ceil_div_less [OF L] by simp
    show "(case a of (l, k) \<Rightarrow> l + k * L) \<in> {..<E}" using a kl by auto
    show "(\<lambda>i. (i mod L, i div L)) (case a of (l, k) \<Rightarrow> l + k * L) = a"
      using a L by auto
    show "h (case a of (l, k) \<Rightarrow> l + k * L) = (case a of (l, k) \<Rightarrow> h (l + k * L))"
      using a by simp
  next
    fix i assume "i \<in> {..<E}"
    then have i: "i < E" by simp
    have "i div L * L + i mod L = i" by simp
    then have "i div L * L < E - i mod L" using i by linarith
    then have "i div L < (E - i mod L + L - 1) div L"
      using ceil_div_less [OF L, of "i div L" "E - i mod L"] by blast
    then show "(i mod L, i div L) \<in> (SIGMA l:{..<L}. {..<(E - l + L - 1) div L})"
      using L by auto
    show "(case (i mod L, i div L) of (l, k) \<Rightarrow> l + k * L) = i" by simp
  qed
  finally show ?thesis .
qed

lemma sum_block:
  fixes f :: "nat \<Rightarrow> 'a::comm_monoid_add"
  shows "(\<Sum>j<v. f (i * v + j)) = sum f {i * v..<i * v + v}"
proof -
  have "sum f {0 + i * v..<v + i * v} = sum (\<lambda>j. f (j + i * v)) {0..<v}"
    by (rule sum.shift_bounds_nat_ivl)
  then show ?thesis by (simp add: add.commute atLeast0LessThan)
qed


subsection \<open>The streaming kernel\<close>


















subsection \<open>The spatial kernel\<close>

lemma sum_split_double:
  fixes F :: "nat \<Rightarrow> 'a::comm_monoid_add"
  shows "(\<Sum>t<k * 2. F t) = (\<Sum>t<k. F t) + (\<Sum>t<k. F (k + t))"
proof -
  have "sum F {0..<k} + sum F {k..<k * 2} = sum F {0..<k * 2}"
    by (rule sum.atLeastLessThan_concat) simp_all
  then have "(\<Sum>t<k * 2. F t) = (\<Sum>t<k. F t) + sum F {k..<k * 2}"
    by (simp add: atLeast0LessThan)
  moreover have "sum F {0 + k..<k + k} = (\<Sum>t = 0..<k. F (t + k))"
    by (rule sum.shift_bounds_nat_ivl)
  ultimately show ?thesis by (simp add: atLeast0LessThan add.commute mult_2_right)
qed








subsection \<open>The register-resident kernel\<close>

lemma shuffle_loop_lane0:
  fixes f :: "nat \<Rightarrow> fp"
  assumes "SIMD = 2 ^ m" and "i = 2 ^ e" and "e \<le> m"
    and "\<forall>l. l + i \<le> SIMD \<longrightarrow> val l = (\<Sum>t<i. f (l + t))"
  shows "shuffle_loop fadd out_of_range SIMD i val 0 = (\<Sum>t<SIMD. f t)"
  using assms(2-)
proof (induction "m - e" arbitrary: e i val rule: less_induct)
  case less
  show ?case
  proof (cases "i < SIMD")
    case False
    have "i \<le> SIMD" using less.prems(1,2) assms(1) by simp
    with False have "i = SIMD" by simp
    with less.prems(3) have "val 0 = (\<Sum>t<SIMD. f t)" by simp
    then show ?thesis using False by (subst shuffle_loop.simps) simp
  next
    case True
    have ipos: "0 < i" using less.prems(1) by simp
    have em: "e < m" using True less.prems(1,2) assms(1) by simp
    define val' where "val' l = fadd (val l) (if l + i < SIMD then val (l + i)
                                             else out_of_range i l)" for l
    have inv: "\<forall>l. l + i * 2 \<le> SIMD \<longrightarrow> val' l = (\<Sum>t<i * 2. f (l + t))"
    proof (intro allI impI)
      fix l assume l: "l + i * 2 \<le> SIMD"
      have a: "val l = (\<Sum>t<i. f (l + t))" using less.prems(3) l by simp
      have b: "val (l + i) = (\<Sum>t<i. f (l + i + t))" using less.prems(3) l by simp
      have "val' l = val l + val (l + i)" using l ipos by (simp add: val'_def plus_fp_def)
      then show "val' l = (\<Sum>t<i * 2. f (l + t))"
        unfolding a b sum_split_double by (simp add: add.assoc)
    qed
    have "shuffle_loop fadd out_of_range SIMD (i * 2) val' 0 = (\<Sum>t<SIMD. f t)"
    proof (rule less.hyps [of "Suc e"])
      show "m - Suc e < m - e" using em by simp
      show "i * 2 = 2 ^ Suc e" using less.prems(1) by simp
      show "Suc e \<le> m" using em by simp
      show "\<forall>l. l + i * 2 \<le> SIMD \<longrightarrow> val' l = (\<Sum>t<i * 2. f (l + t))" by (rule inv)
    qed
    then show ?thesis using True ipos
      by (subst shuffle_loop.simps) (simp add: val'_def [abs_def])
  qed
qed

lemma shuffle_loop_break_lane0:
  fixes f :: "nat \<Rightarrow> fp"
  assumes "SIMD = 2 ^ m" and "i = 2 ^ e" and "e \<le> m"
    and "\<forall>l. l + i \<le> SIMD \<longrightarrow> val l = (\<Sum>t<i. f (l + t))"
    and zero: "\<forall>t. sub_group_num \<le> t \<longrightarrow> f t = 0"
  shows "shuffle_loop_break fadd out_of_range SIMD sub_group_num i val 0 = (\<Sum>t<SIMD. f t)"
  using assms(2-4)
proof (induction "m - e" arbitrary: e i val rule: less_induct)
  case less
  show ?case
  proof (cases "i < SIMD")
    case False
    have "i \<le> SIMD" using less.prems(1,2) assms(1) by simp
    with False have "i = SIMD" by simp
    with less.prems(3) have "val 0 = (\<Sum>t<SIMD. f t)" by simp
    then show ?thesis using False by (subst shuffle_loop_break.simps) simp
  next
    case True
    have ipos: "0 < i" using less.prems(1) by simp
    have em: "e < m" using True less.prems(1,2) assms(1) by simp
    have i2: "i * 2 \<le> SIMD"
    proof -
      have "(2::nat) ^ Suc e \<le> 2 ^ m" using em by (intro power_increasing) simp_all
      then show ?thesis using less.prems(1) assms(1) by (simp add: mult.commute)
    qed
    define val' where "val' l = fadd (val l) (if l + i < SIMD then val (l + i)
                                             else out_of_range i l)" for l
    have inv: "\<forall>l. l + i * 2 \<le> SIMD \<longrightarrow> val' l = (\<Sum>t<i * 2. f (l + t))"
    proof (intro allI impI)
      fix l assume l: "l + i * 2 \<le> SIMD"
      have a: "val l = (\<Sum>t<i. f (l + t))" using less.prems(3) l by simp
      have b: "val (l + i) = (\<Sum>t<i. f (l + i + t))" using less.prems(3) l by simp
      have "val' l = val l + val (l + i)" using l ipos by (simp add: val'_def plus_fp_def)
      then show "val' l = (\<Sum>t<i * 2. f (l + t))"
        unfolding a b sum_split_double by (simp add: add.assoc)
    qed
    show ?thesis
    proof (cases "i \<ge> (sub_group_num + 1) div 2")
      case True
      then have "sub_group_num \<le> i * 2" by linarith
      have "val' 0 = (\<Sum>t<i * 2. f t)" using inv i2 by simp
      also have "\<dots> = (\<Sum>t<SIMD. f t)"
        by (rule sum.mono_neutral_left) (use i2 zero \<open>sub_group_num \<le> i * 2\<close> in auto)
      finally show ?thesis using True \<open>i < SIMD\<close> ipos
        by (subst shuffle_loop_break.simps) (simp add: val'_def [abs_def] Let_def)
    next
      case False
      have "shuffle_loop_break fadd out_of_range SIMD sub_group_num (i * 2) val' 0 =
            (\<Sum>t<SIMD. f t)"
      proof (rule less.hyps [of "Suc e"])
        show "m - Suc e < m - e" using em by simp
        show "i * 2 = 2 ^ Suc e" using less.prems(1) by simp
        show "Suc e \<le> m" using em by simp
        show "\<forall>l. l + i * 2 \<le> SIMD \<longrightarrow> val' l = (\<Sum>t<i * 2. f (l + t))" by (rule inv)
      qed
      then show ?thesis using False \<open>i < SIMD\<close> ipos
        by (subst shuffle_loop_break.simps) (simp add: val'_def [abs_def] Let_def)
    qed
  qed
qed

lemma ceil_div_Suc:
  assumes "0 < (L::nat)" and "i < n"
  shows "(n - i + L - 1) div L = Suc ((n - (i + L) + L - 1) div L)"
proof (cases "n - i \<ge> L")
  case True
  define x where "x = n - (i + L) + L - 1"
  have "n - i + L - 1 = x + L" using True assms by (simp add: x_def)
  then have "(n - i + L - 1) div L = (x + L) div L" by (simp only:)
  also have "\<dots> = Suc (x div L)" using assms(1) by simp
  finally show ?thesis unfolding x_def .
next
  case False
  define y where "y = n - i - 1"
  have y: "y < L" using False by (simp add: y_def)
  have "n - i + L - 1 = y + L" using assms by (simp add: y_def)
  then have "(n - i + L - 1) div L = (y + L) div L" by (simp only:)
  also have "\<dots> = Suc (y div L)" using assms(1) by simp
  also have "\<dots> = Suc 0" using y by simp
  finally have l: "(n - i + L - 1) div L = Suc 0" .
  have "n - (i + L) + L - 1 = L - 1" using False by simp
  then have "(n - (i + L) + L - 1) div L = 0" using assms(1) by simp
  with l show ?thesis by (simp only:)
qed

lemma local_data_loop_sum:
  fixes local_data :: "nat \<Rightarrow> fp"
  assumes S: "0 < SIMD"
  shows "local_data_loop fadd SIMD sub_group_num local_data i val =
         val + (\<Sum>k<(sub_group_num - i + SIMD - 1) div SIMD. local_data (i + k * SIMD))"
proof (induction "sub_group_num - i" arbitrary: i val rule: less_induct)
  case less
  show ?case
  proof (cases "i < sub_group_num")
    case False
    then have "sub_group_num - i + SIMD - 1 = SIMD - 1" by simp
    then have "(sub_group_num - i + SIMD - 1) div SIMD = 0" using S by simp
    then show ?thesis using False by (subst local_data_loop.simps) simp
  next
    case True
    have "sub_group_num - (i + SIMD) < sub_group_num - i" using True S by simp
    from less.hyps [OF this]
    have "local_data_loop fadd SIMD sub_group_num local_data (i + SIMD) (fadd val (local_data i)) =
          fadd val (local_data i) +
          (\<Sum>k<(sub_group_num - (i + SIMD) + SIMD - 1) div SIMD. local_data (i + SIMD + k * SIMD))" .
    also have "\<dots> = val + (\<Sum>k<Suc ((sub_group_num - (i + SIMD) + SIMD - 1) div SIMD).
                               local_data (i + k * SIMD))"
      unfolding sum.lessThan_Suc_shift plus_fp_def [symmetric]
      by (simp add: add.assoc add.commute add.left_commute)
    finally have eq: "local_data_loop fadd SIMD sub_group_num local_data (i + SIMD)
                        (fadd val (local_data i)) =
                      val + (\<Sum>k<Suc ((sub_group_num - (i + SIMD) + SIMD - 1) div SIMD).
                               local_data (i + k * SIMD))" .
    have step: "local_data_loop fadd SIMD sub_group_num local_data i val =
                local_data_loop fadd SIMD sub_group_num local_data (i + SIMD)
                  (fadd val (local_data i))"
      using True S by (subst local_data_loop.simps) simp
    show ?thesis unfolding step ceil_div_Suc [OF S True] by (rule eq)
  qed
qed

lemma group_reduce_sum:
  fixes val :: "nat \<Rightarrow> fp"
  assumes simd: "SIMD = 2 ^ m" and sg: "0 < sub_group_num"
    and lid: "lid_col < sub_group_num * SIMD"
  shows "group_reduce SIMD sub_group_num (Fin 0) fadd out_of_range val lid_col =
         (\<Sum>x < sub_group_num * SIMD. val x)"
proof -
  have S: "0 < SIMD" using simd by simp
  define sg_val where "sg_val idx = shuffle_loop fadd (out_of_range idx) SIMD 1
                             (\<lambda>sg_local_id. val (idx * SIMD + sg_local_id))" for idx
  have sgv: "sg_val idx 0 = (\<Sum>l<SIMD. val (idx * SIMD + l))" for idx
    unfolding sg_val_def
    by (rule shuffle_loop_lane0 [where m = m and e = 0]) (simp_all add: simd)
  have all: "(\<Sum>idx < sub_group_num. sg_val idx 0) = (\<Sum>x < sub_group_num * SIMD. val x)"
    unfolding sgv sum_block by (rule sum.nat_group)
  show ?thesis
  proof (cases "sub_group_num = 1")
    case True
    with lid have "lid_col div SIMD = 0" by simp
    then show ?thesis using True all
      unfolding group_reduce_def Let_def sg_val_def [symmetric] by simp
  next
    case False
    define val0 where "val0 l = local_data_loop fadd SIMD sub_group_num (\<lambda>idx. sg_val idx 0)
                                  (l + SIMD)
                                  (if l < sub_group_num then sg_val l 0 else Fin 0)" for l
    have v0: "val0 l = (\<Sum>k<(sub_group_num - l + SIMD - 1) div SIMD. sg_val (l + k * SIMD) 0)" for l
    proof (cases "l < sub_group_num")
      case True
      have "val0 l = sg_val l 0 + (\<Sum>k<(sub_group_num - (l + SIMD) + SIMD - 1) div SIMD.
                                     sg_val (l + SIMD + k * SIMD) 0)"
        using True by (simp add: val0_def local_data_loop_sum [OF S])
      also have "\<dots> = (\<Sum>k<Suc ((sub_group_num - (l + SIMD) + SIMD - 1) div SIMD).
                          sg_val (l + k * SIMD) 0)"
        unfolding sum.lessThan_Suc_shift by (simp add: add.assoc add.commute add.left_commute)
      finally show ?thesis unfolding ceil_div_Suc [OF S True] .
    next
      case False
      then have "sub_group_num - l + SIMD - 1 = SIMD - 1"
        "sub_group_num - (l + SIMD) + SIMD - 1 = SIMD - 1" by simp_all
      then have "(sub_group_num - l + SIMD - 1) div SIMD = 0"
        "(sub_group_num - (l + SIMD) + SIMD - 1) div SIMD = 0" using S by simp_all
      then show ?thesis using False
        by (simp add: val0_def local_data_loop_sum [OF S] zero_fp_def [symmetric])
    qed
    have z: "\<forall>t. sub_group_num \<le> t \<longrightarrow> val0 t = 0"
    proof (intro allI impI)
      fix t assume "sub_group_num \<le> t"
      then have "sub_group_num - t + SIMD - 1 = SIMD - 1" by simp
      then have "(sub_group_num - t + SIMD - 1) div SIMD = 0" using S by simp
      then show "val0 t = 0" unfolding v0 by simp
    qed
    have "shuffle_loop_break fadd (out_of_range sub_group_num) SIMD sub_group_num 1 val0 0 =
          (\<Sum>t<SIMD. val0 t)"
      by (rule shuffle_loop_break_lane0 [where m = m and e = 0]) (simp_all add: simd z)
    also have "\<dots> = (\<Sum>idx < sub_group_num. sg_val idx 0)"
      unfolding v0 by (rule strided_sum [OF S])
    finally show ?thesis using False all
      unfolding group_reduce_def Let_def sg_val_def [symmetric] val0_def [abs_def] by simp
  qed
qed





subsection \<open>The three tiers against the specification\<close>













text \<open>
  With the two types the same, the conversions the identity and the product that of the
  number model, the work-group model of the register-resident kernel is
  \<open>DispatchSoftmaxBackwardKernelFunctor\<close> as modelled for one work item, its reduction
  being \<open>group_reduce\<close> over the sums of the work items of the row.
\<close>

lemma dispatch_softmax_backward_work_group_same_type:
  "dispatch_softmax_backward_work_group \<lparr>widen = id, narrow = id, scalar_mul = fmul\<rparr>
     vec_size LogSoftMax is_masked NUM SIMD sub_group_num out_of_range outp gradOutput
     mask_data input_calc dim_size outer_size local_size_row local_size group_id local_id =
   DispatchSoftmaxBackwardKernelFunctor vec_size LogSoftMax is_masked NUM
     (\<lambda>_. group_reduce SIMD sub_group_num (Fin 0) fadd (out_of_range (local_id div local_size))
            (\<lambda>c. bwd_partial_sum LogSoftMax (bwd_reg_out is_masked outp mask_data input_calc)
                    gradOutput
                    (bwd_positions vec_size NUM dim_size local_size_row local_size group_id
                       (local_id div local_size * local_size + c)))
            (local_id mod local_size))
     outp gradOutput mask_data input_calc dim_size outer_size local_size_row local_size
     group_id local_id"
proof -
  have r: "bwd_reg_out_st \<lparr>widen = id, narrow = id, scalar_mul = fmul\<rparr> is_masked outp
             mask_data input_calc = bwd_reg_out is_masked outp mask_data input_calc"
    by (rule ext) (simp add: bwd_reg_out_st_def bwd_reg_out_def)
  have s: "dispatch_softmax_backward_sum \<lparr>widen = id, narrow = id, scalar_mul = fmul\<rparr>
             LogSoftMax reg_out reg_gradout positions =
           bwd_partial_sum LogSoftMax reg_out reg_gradout positions"
    for reg_out reg_gradout and positions :: "nat list"
    by (simp add: dispatch_softmax_backward_sum_def bwd_partial_sum_def bwd_addend_def
          cong: if_cong)
  have t: "bwd_store \<lparr>widen = id, narrow = id, scalar_mul = fmul\<rparr> LogSoftMax sum_value a b =
           bwd_result LogSoftMax sum_value a b" for sum_value a b
    by (simp add: bwd_store_def)
  have m: "local_id div local_size * local_size + local_id mod local_size = local_id" by simp
  show ?thesis
    unfolding dispatch_softmax_backward_work_group_def DispatchSoftmaxBackwardKernelFunctor_def
      bwd_sum_value_def Let_def r s t m ..
qed




end
